theory Spec2Isabelle
  imports Complex_Main "HOL-Library.Log_Nat"
begin

section \<open>JavaScript strings\<close>

text \<open>
  A string is a list of code units. Isabelle's \<^typ>\<open>char\<close> has 256 values, so the model
  covers the strings whose code units are below 256; the markup the service writes itself is
  ASCII. White space is what \<^verbatim>\<open>String.prototype.trim\<close> and the regular expression class
  \<^verbatim>\<open>\s\<close> accept in that range: TAB, LF, VT, FF, CR, SPACE and NBSP.
\<close>

abbreviation apos :: string where
  "apos \<equiv> [CHR 0x27]"

definition is_space :: "char \<Rightarrow> bool" where
  "is_space c = (c = CHR 0x09 \<or> c = CHR 0x0A \<or> c = CHR 0x0B \<or> c = CHR 0x0C \<or> c = CHR 0x0D
                 \<or> c = CHR 0x20 \<or> c = CHR 0xA0)"

text \<open>\<^verbatim>\<open>s.trim()\<close>\<close>

definition trim :: "string \<Rightarrow> string" where
  "trim s = rev (dropWhile is_space (rev (dropWhile is_space s)))"

text \<open>
  \<^verbatim>\<open>s.split(/\s+/)\<close>: the pieces between maximal runs of white space. A run at the very start
  or end of the string leaves an empty piece there, and the empty string gives one empty piece.
\<close>

fun split_ws :: "string \<Rightarrow> string list" where
  "split_ws [] = [[]]"
| "split_ws (c # cs) =
     (if is_space c then (if cs \<noteq> [] \<and> is_space (hd cs) then split_ws cs else [] # split_ws cs)
      else (case split_ws cs of [] \<Rightarrow> [[c]] | w # ws \<Rightarrow> (c # w) # ws))"

text \<open>\<^verbatim>\<open>xs.join(sep)\<close>\<close>

fun join :: "string \<Rightarrow> string list \<Rightarrow> string" where
  "join sep [] = []"
| "join sep [w] = w"
| "join sep (w # v # ws) = w @ sep @ join sep (v # ws)"

text \<open>\<^verbatim>\<open>s.startsWith(p)\<close>, used by the searches below.\<close>

fun startsWith :: "string \<Rightarrow> string \<Rightarrow> bool" where
  "startsWith [] s = True"
| "startsWith (p # ps) [] = False"
| "startsWith (p # ps) (c # cs) = (p = c \<and> startsWith ps cs)"

text \<open>\<^verbatim>\<open>s.indexOf(p)\<close>: the first position where \<open>p\<close> occurs, or \<open>-1\<close>.\<close>

fun indexOf_from :: "int \<Rightarrow> string \<Rightarrow> string \<Rightarrow> int" where
  "indexOf_from i p [] = (if p = [] then i else - 1)"
| "indexOf_from i p (c # cs) = (if startsWith p (c # cs) then i else indexOf_from (i + 1) p cs)"

definition indexOf :: "string \<Rightarrow> string \<Rightarrow> int" where
  "indexOf s p = indexOf_from 0 p s"

text \<open>\<^verbatim>\<open>s.substring(i)\<close>: the start index is clamped to \<open>0 .. s.length\<close>.\<close>

definition substring :: "string \<Rightarrow> int \<Rightarrow> string" where
  "substring s i = drop (nat (max 0 (min i (int (length s))))) s"

text \<open>\<^verbatim>\<open>s.replace(p, r)\<close> with a string pattern: only the first occurrence is replaced.\<close>

fun replace_first :: "string \<Rightarrow> string \<Rightarrow> string \<Rightarrow> string" where
  "replace_first p r [] = (if p = [] then r else [])"
| "replace_first p r (c # cs) =
     (if startsWith p (c # cs) then r @ drop (length p) (c # cs) else c # replace_first p r cs)"

text \<open>\<^verbatim>\<open>s.replace(/c/g, r)\<close> for a one-character pattern: every occurrence is replaced.\<close>

definition replace_all_char :: "char \<Rightarrow> string \<Rightarrow> string \<Rightarrow> string" where
  "replace_all_char c r s = concat (map (\<lambda>d. if d = c then r else [d]) s)"

section \<open>JavaScript numbers\<close>

text \<open>
  A number is an IEEE 754 double: a finite value, an infinity or NaN. Finite values are
  rationals, and every arithmetic result is rounded to the nearest value with a 53-bit
  significand, ties to even (\<open>fl\<close>). The exponent range is not bounded, which makes no
  difference below \<open>2 ^ 1023\<close> and above \<open>2 ^ - 1022\<close>; the sign of zero is not recorded.
\<close>

definition ilog2 :: "rat \<Rightarrow> int" where
  "ilog2 x = (if 1 \<le> x then bitlen \<lfloor>x\<rfloor> - 1 else - bitlen (\<lceil>1 / x\<rceil> - 1))"

definition round_half_even :: "rat \<Rightarrow> int" where
  "round_half_even m =
     (let f = \<lfloor>m\<rfloor>; d = m - of_int f
      in if d < 1 / 2 then f else if 1 / 2 < d then f + 1 else if even f then f else f + 1)"

definition fl :: "rat \<Rightarrow> rat" where
  "fl x = (if x = 0 then 0
           else let a = \<bar>x\<bar>; u = 2 powi (ilog2 a - 52)
                in sgn x * of_int (round_half_even (a / u)) * u)"

datatype jsnum = Fin rat | PosInf | NegInf | NaN

fun jneg :: "jsnum \<Rightarrow> jsnum" where
  "jneg (Fin a) = Fin (- a)"
| "jneg PosInf = NegInf"
| "jneg NegInf = PosInf"
| "jneg NaN = NaN"

fun jadd :: "jsnum \<Rightarrow> jsnum \<Rightarrow> jsnum" where
  "jadd NaN b = NaN"
| "jadd a NaN = NaN"
| "jadd (Fin a) (Fin b) = Fin (fl (a + b))"
| "jadd PosInf NegInf = NaN"
| "jadd NegInf PosInf = NaN"
| "jadd PosInf b = PosInf"
| "jadd NegInf b = NegInf"
| "jadd (Fin a) b = b"

definition jsub :: "jsnum \<Rightarrow> jsnum \<Rightarrow> jsnum" where
  "jsub a b = jadd a (jneg b)"

fun jmul :: "jsnum \<Rightarrow> jsnum \<Rightarrow> jsnum" where
  "jmul NaN b = NaN"
| "jmul a NaN = NaN"
| "jmul (Fin a) (Fin b) = Fin (fl (a * b))"
| "jmul (Fin a) b = (if a = 0 then NaN else if 0 < a then b else jneg b)"
| "jmul a (Fin b) = (if b = 0 then NaN else if 0 < b then a else jneg a)"
| "jmul a b = (if a = b then PosInf else NegInf)"

fun jdiv :: "jsnum \<Rightarrow> jsnum \<Rightarrow> jsnum" where
  "jdiv NaN b = NaN"
| "jdiv a NaN = NaN"
| "jdiv (Fin a) (Fin b) =
     (if b \<noteq> 0 then Fin (fl (a / b))
      else if 0 < a then PosInf else if a < 0 then NegInf else NaN)"
| "jdiv (Fin a) b = Fin 0"
| "jdiv a (Fin b) = (if 0 \<le> b then a else jneg a)"
| "jdiv a b = NaN"

text \<open>The order of the numbers that are not NaN.\<close>

fun jle :: "jsnum \<Rightarrow> jsnum \<Rightarrow> bool" where
  "jle NaN b = False"
| "jle a NaN = False"
| "jle NegInf b = True"
| "jle a PosInf = True"
| "jle (Fin a) (Fin b) = (a \<le> b)"
| "jle a b = False"

text \<open>\<^verbatim>\<open>Math.min\<close> and \<^verbatim>\<open>Math.max\<close> of two numbers: NaN if either is NaN.\<close>

definition jmin :: "jsnum \<Rightarrow> jsnum \<Rightarrow> jsnum" where
  "jmin a b = (if a = NaN \<or> b = NaN then NaN else if jle a b then a else b)"

definition jmax :: "jsnum \<Rightarrow> jsnum \<Rightarrow> jsnum" where
  "jmax a b = (if a = NaN \<or> b = NaN then NaN else if jle a b then b else a)"

text \<open>\<^verbatim>\<open>Math.min(a, b, c)\<close>\<close>

definition jmin3 :: "jsnum \<Rightarrow> jsnum \<Rightarrow> jsnum \<Rightarrow> jsnum" where
  "jmin3 a b c = jmin (jmin a b) c"

text \<open>
  Number to string, as a template literal does it. An integer of magnitude at most
  \<open>2 ^ 53\<close> is written in decimal, digit for digit; the digits of any other finite value
  (the shortest decimal that reads back as the same double) are left to the parameter \<open>fmt\<close>.
\<close>

fun dec :: "nat \<Rightarrow> string" where
  "dec n = (if n < 10 then [''0123456789'' ! n] else dec (n div 10) @ [''0123456789'' ! (n mod 10)])"

declare dec.simps [simp del]

fun num_str :: "(rat \<Rightarrow> string) \<Rightarrow> jsnum \<Rightarrow> string" where
  "num_str fmt NaN = ''NaN''"
| "num_str fmt PosInf = ''Infinity''"
| "num_str fmt NegInf = ''-Infinity''"
| "num_str fmt (Fin a) =
     (if of_int \<lfloor>a\<rfloor> = a \<and> \<bar>a\<bar> \<le> 2 ^ 53
      then (if a < 0 then ''-'' else '''') @ dec (nat \<bar>\<lfloor>a\<rfloor>\<bar>)
      else fmt a)"

declare num_str.simps [simp del]

section \<open>Data model\<close>

text \<open>
  \<open>DesignOptions\<close>, restricted to the fields the SVG service reads. A logo that is absent and
  a logo that is the empty string are both falsy, so both fail the test \<^verbatim>\<open>!logo\<close>. The
  layout and the text style are closed unions in the source; every value that the \<^verbatim>\<open>switch\<close>
  statements do not name (\<^verbatim>\<open>'none'\<close>, \<^verbatim>\<open>'distressed_vintage'\<close>, ...) takes the default branch
  and is \<open>OtherLayout\<close> or \<open>NoStyle\<close> here.
\<close>

datatype TextStyle =
  Outline | Shadow | Glow | Neon | ThreeD | Metallic | Chrome | Gradient | Varsity | NoStyle

datatype LayoutStyle =
  Classic | LowerHalfCircle | UpperHalfCircle | UpperOval | LowerOval | FullCircle | Split
  | StackedText | OtherLayout

record DesignOptions =
  logo :: "string option"
  text' :: string
  font :: string
  style :: LayoutStyle
  textStyle :: TextStyle
  textColor :: string
  gradientStartColor :: string
  gradientEndColor :: string

record 'a box =
  width :: 'a
  height :: 'a

record point =
  px :: jsnum
  py :: jsnum

record FontAsset =
  dataUri :: string
  format :: string

text \<open>
  What a promise can reject with: an \<^verbatim>\<open>Error\<close> object with its message, the error of a
  failed request or body read, or the event that a failing \<^verbatim>\<open>FileReader\<close> hands to
  \<^verbatim>\<open>reject\<close>.
\<close>

datatype error = Error string | NetworkError | ReaderErrorEvent

text \<open>A response of \<^verbatim>\<open>fetch\<close>; reading its body (\<^verbatim>\<open>text()\<close>, \<^verbatim>\<open>blob()\<close>) may fail.\<close>

record response =
  ok :: bool
  statusText :: string
  body :: "string option"

text \<open>
  What the service takes from outside its own file: the digits of a number that is not an
  integer, the font catalogue \<^verbatim>\<open>TSHIRT_FONTS\<close> (id and name of each font), the size of a
  decoded image (\<open>None\<close> when the image fails to load), the outcome of a \<^verbatim>\<open>fetch\<close> (\<open>None\<close>
  when the request fails) and of \<^verbatim>\<open>FileReader.readAsDataURL\<close> (\<open>None\<close> when the reader
  reports an error).
\<close>

record env =
  numFmt :: "rat \<Rightarrow> string"
  TSHIRT_FONTS :: "(string \<times> string) list"
  imageSize :: "string \<Rightarrow> nat box option"
  fetch :: "string \<Rightarrow> response option"
  readAsDataURL :: "string \<Rightarrow> string option"

abbreviation num :: "env \<Rightarrow> jsnum \<Rightarrow> string" where
  "num e \<equiv> num_str (numFmt e)"

section \<open>The SVG service\<close>

definition getLogoDimensions :: "env \<Rightarrow> string \<Rightarrow> error + nat box" where
  "getLogoDimensions e logoDataUrl =
     (case imageSize e logoDataUrl of
        Some d \<Rightarrow> Inr d
      | None \<Rightarrow> Inl (Error ''Failed to load logo image to determine dimensions.''))"

primrec getTextStyleSvg :: "TextStyle \<Rightarrow> string \<Rightarrow> string \<Rightarrow> string" where
  \<open>getTextStyleSvg Outline color ident = ''stroke="black" stroke-width="2" fill="'' @ color @ ''"''\<close>
| \<open>getTextStyleSvg Shadow color ident = ''fill="'' @ color @ ''" filter="url(#shadow-'' @ ident @ '')"''\<close>
| \<open>getTextStyleSvg Glow color ident = ''fill="white" filter="url(#glow-'' @ ident @ '')"''\<close>
| \<open>getTextStyleSvg Neon color ident = ''fill="'' @ color @ ''" filter="url(#neon-'' @ ident @ '')"''\<close>
| \<open>getTextStyleSvg ThreeD color ident = ''fill="'' @ color @ ''" filter="url(#three-d-'' @ ident @ '')"''\<close>
| \<open>getTextStyleSvg Metallic color ident = ''fill="url(#metallic-'' @ ident @ '')"''\<close>
| \<open>getTextStyleSvg Chrome color ident = ''fill="url(#chrome-'' @ ident @ '')" stroke="#4B5563" stroke-width="0.5"''\<close>
| \<open>getTextStyleSvg Gradient color ident = ''fill="url(#gradient-'' @ ident @ '')"''\<close>
| \<open>getTextStyleSvg Varsity color ident = ''stroke="black" stroke-width="4" stroke-linejoin="round" fill="'' @ color @ ''"''\<close>
| \<open>getTextStyleSvg NoStyle color ident = ''fill="'' @ color @ ''"''\<close>

primrec getTextStyleDefs :: "TextStyle \<Rightarrow> string \<Rightarrow> string \<Rightarrow> string \<Rightarrow> string \<Rightarrow> string" where
  \<open>getTextStyleDefs Shadow color gradientStart gradientEnd ident =
     ''\<newline>        <filter id="shadow-'' @ ident @ ''" x="-20%" y="-20%" width="140%" height="140%">\<newline>          <feDropShadow dx="3" dy="3" stdDeviation="3" flood-color="rgba(0,0,0,0.5)" />\<newline>        </filter>''\<close>
| \<open>getTextStyleDefs Glow color gradientStart gradientEnd ident =
     ''\<newline>        <filter id="glow-'' @ ident @ ''" x="-50%" y="-50%" width="200%" height="200%">\<newline>          <feGaussianBlur in="SourceGraphic" stdDeviation="4" result="blur" />\<newline>          <feMerge>\<newline>            <feMergeNode in="blur" />\<newline>            <feMergeNode in="SourceGraphic" />\<newline>          </feMerge>\<newline>        </filter>''\<close>
| \<open>getTextStyleDefs Neon color gradientStart gradientEnd ident =
     ''\<newline>        <filter id="neon-'' @ ident @ ''" x="-50%" y="-50%" width="200%" height="200%">\<newline>            <feFlood result="flood" flood-color="'' @ color @ ''" flood-opacity="0.7"/>\<newline>            <feComposite in="flood" in2="SourceGraphic" operator="in" result="color-out"/>\<newline>            <feGaussianBlur in="color-out" stdDeviation="4" result="blur-out"/>\<newline>            <feMerge>\<newline>                <feMergeNode in="blur-out" />\<newline>                <feMergeNode in="SourceGraphic"/>\<newline>            </feMerge>\<newline>        </filter>''\<close>
| \<open>getTextStyleDefs ThreeD color gradientStart gradientEnd ident =
     ''\<newline>        <filter id="three-d-'' @ ident @ ''" x="-20%" y="-20%" width="140%" height="140%">\<newline>            <feDropShadow dx="3" dy="3" stdDeviation="0" flood-color="#4B5563" />\<newline>        </filter>''\<close>
| \<open>getTextStyleDefs Metallic color gradientStart gradientEnd ident =
     ''\<newline>        <linearGradient id="metallic-'' @ ident @ ''" x1="0%" y1="0%" x2="0%" y2="100%">\<newline>            <stop offset="0%" stop-color="#E5E7EB" />\<newline>            <stop offset="50%" stop-color="#9CA3AF" />\<newline>            <stop offset="100%" stop-color="#E5E7EB" />\<newline>        </linearGradient>''\<close>
| \<open>getTextStyleDefs Chrome color gradientStart gradientEnd ident =
     ''\<newline>        <linearGradient id="chrome-'' @ ident @ ''" x1="0%" y1="0%" x2="0%" y2="100%">\<newline>            <stop offset="0%" stop-color="#6B7280" /><stop offset="30%" stop-color="#D1D5DB" />\<newline>            <stop offset="50%" stop-color="#F9FAFB" /><stop offset="70%" stop-color="#D1D5DB" />\<newline>            <stop offset="100%" stop-color="#6B7280" />\<newline>        </linearGradient>''\<close>
| \<open>getTextStyleDefs Gradient color gradientStart gradientEnd ident =
     ''\<newline>        <linearGradient id="gradient-'' @ ident @ ''" x1="0%" y1="0%" x2="100%" y2="100%">\<newline>            <stop offset="0%" stop-color="'' @ gradientStart @ ''" />\<newline>            <stop offset="100%" stop-color="'' @ gradientEnd @ ''" />\<newline>        </linearGradient>''\<close>
| \<open>getTextStyleDefs Outline color gradientStart gradientEnd ident = []\<close>
| \<open>getTextStyleDefs Varsity color gradientStart gradientEnd ident = []\<close>
| \<open>getTextStyleDefs NoStyle color gradientStart gradientEnd ident = []\<close>

definition escapeChar :: "char \<Rightarrow> string" where
  \<open>escapeChar c =
     (if c = CHR ''<'' then ''&lt;''
      else if c = CHR ''>'' then ''&gt;''
      else if c = CHR ''&'' then ''&amp;''
      else if c = CHR 0x27 then ''&apos;''
      else if c = CHR 0x22 then ''&quot;''
      else [c])\<close>

definition escapeXml :: "string \<Rightarrow> string" where
  "escapeXml unsafe = concat (map escapeChar unsafe)"

text \<open>
  \<^verbatim>\<open>TSHIRT_FONTS.find(f => f.id === font)?.name || 'Impact'\<close>: the name of the first catalogue
  entry with that id, or \<^verbatim>\<open>'Impact'\<close> when there is none or its name is empty.
\<close>

definition fontNameOf :: "env \<Rightarrow> string \<Rightarrow> string" where
  "fontNameOf e f =
     (case find (\<lambda>entry. fst entry = f) (TSHIRT_FONTS e) of
        None \<Rightarrow> ''Impact''
      | Some entry \<Rightarrow> if snd entry = [] then ''Impact'' else snd entry)"

text \<open>
  The first match of \<^verbatim>\<open>/url\((https:\/\/[^)]+\.woff2)\)/\<close> and its group 1. At a position
  the expression matches when \<^verbatim>\<open>url(https://\<close> stands there, the characters up to the next
  \<^verbatim>\<open>)\<close> end in \<^verbatim>\<open>.woff2\<close> with at least one character before it, and that \<^verbatim>\<open>)\<close> exists.
\<close>

definition match_woff2_here :: "string \<Rightarrow> string option" where
  "match_woff2_here s =
     (if startsWith ''url(https://'' s
      then (let rest = drop 12 s;
                run = takeWhile (\<lambda>c. c \<noteq> CHR '')'') rest;
                after = dropWhile (\<lambda>c. c \<noteq> CHR '')'') rest
            in if after \<noteq> [] \<and> 7 \<le> length run \<and> drop (length run - 6) run = ''.woff2''
               then Some (''https://'' @ run) else None)
      else None)"

fun match_woff2 :: "string \<Rightarrow> string option" where
  "match_woff2 [] = None"
| "match_woff2 (c # cs) =
     (case match_woff2_here (c # cs) of Some u \<Rightarrow> Some u | None \<Rightarrow> match_woff2 cs)"

text \<open>
  \<open>fetchAndEncodeFont\<close>. The body of its \<^verbatim>\<open>try\<close> block either throws (a \<^verbatim>\<open>throw\<close>, or an
  awaited promise that rejects) or returns. What it returns last is a promise that is not
  awaited: the function's own promise settles as that promise does, and a rejection of it no
  longer passes through \<^verbatim>\<open>catch\<close>. The reader fires \<^verbatim>\<open>error\<close> before \<^verbatim>\<open>loadend\<close>, so on a
  failed read \<^verbatim>\<open>reject\<close> settles the promise first.
\<close>

datatype 'a completion = Returns 'a | Throws error

definition emptyAsset :: FontAsset where
  "emptyAsset = \<lparr>dataUri = [], format = []\<rparr>"

definition fetchAndEncodeFont_try :: "env \<Rightarrow> string \<Rightarrow> (error + FontAsset) completion" where
  "fetchAndEncodeFont_try e fontUrl =
     (case fetch e fontUrl of
        None \<Rightarrow> Throws NetworkError
      | Some cssResponse \<Rightarrow>
          if \<not> ok cssResponse
          then Throws (Error (''Failed to fetch font CSS: '' @ statusText cssResponse))
          else (case body cssResponse of
                  None \<Rightarrow> Throws NetworkError
                | Some cssText \<Rightarrow>
                    (case match_woff2 cssText of
                       None \<Rightarrow> Returns (Inr emptyAsset)
                     | Some fontFileUrl \<Rightarrow>
                         (case fetch e fontFileUrl of
                            None \<Rightarrow> Throws NetworkError
                          | Some fontFileResponse \<Rightarrow>
                              if \<not> ok fontFileResponse
                              then Throws (Error (''Failed to fetch font file: ''
                                                    @ statusText fontFileResponse))
                              else (case body fontFileResponse of
                                      None \<Rightarrow> Throws NetworkError
                                    | Some fontBlob \<Rightarrow>
                                        Returns
                                          (case readAsDataURL e fontBlob of
                                             Some result \<Rightarrow>
                                               Inr \<lparr>dataUri = result, format = ''woff2''\<rparr>
                                           | None \<Rightarrow> Inl ReaderErrorEvent))))))"

definition fetchAndEncodeFont :: "env \<Rightarrow> string \<Rightarrow> error + FontAsset" where
  "fetchAndEncodeFont e fontUrl =
     (case fetchAndEncodeFont_try e fontUrl of
        Returns p \<Rightarrow> p
      | Throws err \<Rightarrow> Inr emptyAsset)"

text \<open>\<open>getTextElements\<close>\<close>

definition commonTextProps :: "env \<Rightarrow> DesignOptions \<Rightarrow> string" where
  \<open>commonTextProps e design =
     (let fontName = fontNameOf e (font design);
          textId = ''text-element'';
          textStyleAttributes = getTextStyleSvg (textStyle design) (textColor design) textId
      in textStyleAttributes @ '' font-family="'' @ apos @ fontName @ apos
           @ '', sans-serif" font-size="50px"'')\<close>

text \<open>The template that the four arc layouts return (the same text in each of them).\<close>

definition arcMarkup :: "string \<Rightarrow> string \<Rightarrow> string \<Rightarrow> string \<Rightarrow> string" where
  \<open>arcMarkup pathId pathD props t =
     ''<defs><path id="'' @ pathId @ ''" d="'' @ pathD
       @ ''" fill="none"/></defs><text><textPath href="#'' @ pathId
       @ ''" startOffset="50%" text-anchor="middle" '' @ props @ ''>'' @ escapeXml t
       @ ''</textPath></text>''\<close>

text \<open>
  The two halves of \<open>full_circle\<close> and \<open>split\<close>: \<^verbatim>\<open>words.slice(0, midPoint).join(' ')\<close> and
  \<^verbatim>\<open>words.slice(midPoint).join(' ')\<close> with \<^verbatim>\<open>midPoint = Math.ceil(words.length / 2)\<close>.
\<close>

definition halves :: "string \<Rightarrow> string \<times> string" where
  "halves t =
     (let words = split_ws t;
          midPoint = (length words + 1) div 2
      in (join '' '' (take midPoint words), join '' '' (drop midPoint words)))"

text \<open>
  What \<open>full_circle\<close> and \<open>split\<close> return, given the two halves of the text (lines 186 to
  193, and 200 to 201).
\<close>

definition fullCircleMarkup ::
  "env \<Rightarrow> string \<Rightarrow> jsnum box \<Rightarrow> point \<Rightarrow> string \<Rightarrow> string \<Rightarrow> string" where
  \<open>fullCircleMarkup e props scaledLogo center topText bottomText =
     (let cx = px center;
          cy = py center;
          radius = jadd (jdiv (jmax (width scaledLogo) (height scaledLogo)) (Fin 2)) (Fin 50);
          pathTopId = ''text-path-top'';
          pathTopD = ''M '' @ num e (jadd cx radius) @ '','' @ num e cy @ '' A ''
                       @ num e radius @ '','' @ num e radius @ '' 0 0 0 ''
                       @ num e (jsub cx radius) @ '','' @ num e cy;
          pathBottomId = ''text-path-bottom'';
          pathBottomD = ''M '' @ num e (jsub cx radius) @ '','' @ num e cy @ '' A ''
                          @ num e radius @ '','' @ num e radius @ '' 0 0 1 ''
                          @ num e (jadd cx radius) @ '','' @ num e cy
      in ''<defs><path id="'' @ pathTopId @ ''" d="'' @ pathTopD @ ''"/><path id="''
           @ pathBottomId @ ''" d="'' @ pathBottomD
           @ ''"/></defs>\<newline>                <text><textPath href="#'' @ pathTopId
           @ ''" startOffset="50%" text-anchor="middle" '' @ props @ ''>''
           @ escapeXml topText
           @ ''</textPath></text>\<newline>                <text><textPath href="#''
           @ pathBottomId @ ''" startOffset="50%" text-anchor="middle" '' @ props @ ''>''
           @ escapeXml bottomText @ ''</textPath></text>'')\<close>

definition splitMarkup ::
  "env \<Rightarrow> string \<Rightarrow> jsnum box \<Rightarrow> point \<Rightarrow> string \<Rightarrow> string \<Rightarrow> string" where
  \<open>splitMarkup e props scaledLogo center leftText rightText =
     (let cx = px center;
          cy = py center;
          w = width scaledLogo
      in ''<text x="'' @ num e (jsub (jsub cx (jdiv w (Fin 2))) (Fin 20)) @ ''" y="''
           @ num e cy @ ''" text-anchor="end" dominant-baseline="middle" '' @ props @ ''>''
           @ escapeXml leftText @ ''</text>\<newline>                <text x="''
           @ num e (jadd (jadd cx (jdiv w (Fin 2))) (Fin 20)) @ ''" y="'' @ num e cy
           @ ''" text-anchor="start" dominant-baseline="middle" '' @ props @ ''>''
           @ escapeXml rightText @ ''</text>'')\<close>

definition getTextElements :: "env \<Rightarrow> DesignOptions \<Rightarrow> jsnum box \<Rightarrow> point \<Rightarrow> string" where
  \<open>getTextElements e design scaledLogo center =
     (let t = text' design;
          props = commonTextProps e design;
          w = width scaledLogo;
          h = height scaledLogo;
          cx = px center;
          cy = py center
      in case style design of
        Classic \<Rightarrow>
          (let radius = jadd (jdiv w (Fin 2)) (Fin 30);
               yb = jadd (jadd cy (jdiv h (Fin 2))) (Fin 20);
               pathD = ''M '' @ num e (jsub cx radius) @ '','' @ num e yb @ '' A '' @ num e radius
                         @ '','' @ num e radius @ '' 0 0 1 '' @ num e (jadd cx radius) @ '',''
                         @ num e yb
           in arcMarkup ''text-path-lower'' pathD props t)
      | LowerHalfCircle \<Rightarrow>
          (let radius = jadd (jdiv w (Fin 2)) (Fin 30);
               yb = jadd (jadd cy (jdiv h (Fin 2))) (Fin 20);
               pathD = ''M '' @ num e (jsub cx radius) @ '','' @ num e yb @ '' A '' @ num e radius
                         @ '','' @ num e radius @ '' 0 0 1 '' @ num e (jadd cx radius) @ '',''
                         @ num e yb
           in arcMarkup ''text-path-lower'' pathD props t)
      | UpperHalfCircle \<Rightarrow>
          (let radius = jadd (jdiv w (Fin 2)) (Fin 30);
               yt = jsub (jsub cy (jdiv h (Fin 2))) (Fin 20);
               pathD = ''M '' @ num e (jadd cx radius) @ '','' @ num e yt @ '' A '' @ num e radius
                         @ '','' @ num e radius @ '' 0 0 0 '' @ num e (jsub cx radius) @ '',''
                         @ num e yt
           in arcMarkup ''text-path-upper'' pathD props t)
      | UpperOval \<Rightarrow>
          (let rx = jadd (jdiv w (Fin 2)) (Fin 80);
               ry = Fin 60;
               yt = jsub (jsub cy (jdiv h (Fin 2))) (Fin 20);
               pathD = ''M '' @ num e (jadd cx rx) @ '','' @ num e yt @ '' A '' @ num e rx
                         @ '','' @ num e ry @ '' 0 0 0 '' @ num e (jsub cx rx) @ '',''
                         @ num e yt
           in arcMarkup ''text-path-upper-oval'' pathD props t)
      | LowerOval \<Rightarrow>
          (let rx = jadd (jdiv w (Fin 2)) (Fin 80);
               ry = Fin 60;
               yb = jadd (jadd cy (jdiv h (Fin 2))) (Fin 20);
               pathD = ''M '' @ num e (jsub cx rx) @ '','' @ num e yb @ '' A '' @ num e rx
                         @ '','' @ num e ry @ '' 0 0 1 '' @ num e (jadd cx rx) @ '',''
                         @ num e yb
           in arcMarkup ''text-path-lower-oval'' pathD props t)
      | FullCircle \<Rightarrow>
          (let topText = fst (halves t);
               bottomText = snd (halves t)
           in fullCircleMarkup e props scaledLogo center topText bottomText)
      | Split \<Rightarrow>
          (let leftText = fst (halves t);
               rightText = snd (halves t)
           in splitMarkup e props scaledLogo center leftText rightText)
      | StackedText \<Rightarrow>
          (let words = split_ws t
           in concat (map (\<lambda>(i, word).
                ''<text x="'' @ num e cx @ ''" y="''
                  @ num e (jadd (jadd (jadd cy (jdiv h (Fin 2))) (Fin 30))
                             (jmul (Fin (of_nat i)) (Fin 60)))
                  @ ''" text-anchor="middle" '' @ props @ ''>'' @ escapeXml word @ ''</text>'')
                (enumerate 0 words)))
      | OtherLayout \<Rightarrow>
          ''<text x="'' @ num e cx @ ''" y="'' @ num e (jadd (jadd cy (jdiv h (Fin 2))) (Fin 60))
            @ ''" text-anchor="middle" '' @ props @ ''>'' @ escapeXml t @ ''</text>'')\<close>

text \<open>
  The scaling step, written out three times in the source with the same text:
  \<^verbatim>\<open>ratio = Math.min(maxLogoDim / logoDims.width, maxLogoDim / logoDims.height, 1)\<close> and
  \<^verbatim>\<open>scaledLogo = { width: logoDims.width * ratio, height: logoDims.height * ratio }\<close>.
  The width and height of an image are unsigned integers.
\<close>

definition maxLogoDim :: jsnum where
  "maxLogoDim = Fin 400"

definition scaleRatio :: "nat box \<Rightarrow> jsnum" where
  "scaleRatio logoDims =
     jmin3 (jdiv maxLogoDim (Fin (of_nat (width logoDims))))
           (jdiv maxLogoDim (Fin (of_nat (height logoDims)))) (Fin 1)"

definition scaleToFit :: "nat box \<Rightarrow> jsnum box" where
  "scaleToFit logoDims =
     (let ratio = scaleRatio logoDims
      in \<lparr>width = jmul (Fin (of_nat (width logoDims))) ratio,
          height = jmul (Fin (of_nat (height logoDims))) ratio\<rparr>)"

definition VIEWBOX_SIZE :: jsnum where
  "VIEWBOX_SIZE = Fin 1000"

definition viewCenter :: point where
  "viewCenter = \<lparr>px = jdiv VIEWBOX_SIZE (Fin 2), py = jdiv VIEWBOX_SIZE (Fin 2)\<rparr>"

text \<open>The logo when it is truthy; \<open>None\<close> when \<^verbatim>\<open>!logo\<close> holds.\<close>

definition logoOf :: "DesignOptions \<Rightarrow> string option" where
  "logoOf design = (case logo design of None \<Rightarrow> None | Some l \<Rightarrow> if l = [] then None else Some l)"

definition fontUrlOf :: "string \<Rightarrow> string" where
  \<open>fontUrlOf fontName =
     ''https://fonts.googleapis.com/css2?family='' @ replace_all_char CHR '' '' ''+'' fontName
       @ '':wght@400;700&display=swap''\<close>

definition importStyle :: "string \<Rightarrow> string" where
  \<open>importStyle url = ''<style>@import url('' @ apos @ url @ apos @ '');</style>''\<close>

text \<open>Lines 238 to 256: the style element of the text-only document.\<close>

definition fontStyleDefOf :: "env \<Rightarrow> string \<Rightarrow> string \<Rightarrow> bool \<Rightarrow> error + string" where
  \<open>fontStyleDefOf e fontName fontUrl embedFont =
     (if embedFont
      then (case fetchAndEncodeFont e fontUrl of
              Inl err \<Rightarrow> Inl err
            | Inr fontData \<Rightarrow>
                if dataUri fontData \<noteq> []
                then Inr (''\<newline>            <style>\<newline>                @font-face {\<newline>                    font-family: ''
                          @ apos @ fontName @ apos
                          @ '';\<newline>                    src: url('' @ dataUri fontData
                          @ '') format('' @ apos @ format fontData @ apos
                          @ '');\<newline>                }\<newline>            </style>'')
                else Inr (importStyle (replace_all_char CHR ''&'' ''&amp;'' fontUrl)))
      else Inr (importStyle (replace_all_char CHR ''&'' ''&amp;'' fontUrl)))\<close>

definition emptyCanvas :: string where
  \<open>emptyCanvas = ''<svg xmlns="http://www.w3.org/2000/svg" width="1000" height="1000"></svg>''\<close>

definition generateTextOnlySvg :: "env \<Rightarrow> DesignOptions \<Rightarrow> bool \<Rightarrow> error + string" where
  \<open>generateTextOnlySvg e design embedFont =
     (case logoOf design of
        None \<Rightarrow> Inl (Error ''Logo is required for layout.'')
      | Some l \<Rightarrow>
          if trim (text' design) = [] then Inr emptyCanvas
          else (case getLogoDimensions e l of
              Inl err \<Rightarrow> Inl err
            | Inr logoDims \<Rightarrow>
                (let center = viewCenter;
                     scaledLogo = scaleToFit logoDims;
                     fontName = fontNameOf e (font design);
                     fontUrl = fontUrlOf fontName
                 in case fontStyleDefOf e fontName fontUrl embedFont of
                      Inl err \<Rightarrow> Inl err
                    | Inr fontStyleDef \<Rightarrow>
                        (let textId = ''text-element'';
                             textStyleDefs = getTextStyleDefs (textStyle design) (textColor design)
                               (gradientStartColor design) (gradientEndColor design) textId;
                             textElements = getTextElements e design scaledLogo center
                         in Inr (''\<newline><svg width="'' @ num e VIEWBOX_SIZE @ ''" height="''
                                  @ num e VIEWBOX_SIZE @ ''" viewBox="0 0 '' @ num e VIEWBOX_SIZE
                                  @ '' '' @ num e VIEWBOX_SIZE
                                  @ ''" xmlns="http://www.w3.org/2000/svg">\<newline>  <defs>\<newline>    ''
                                  @ fontStyleDef @ ''\<newline>    '' @ textStyleDefs
                                  @ ''\<newline>  </defs>\<newline>  '' @ textElements
                                  @ ''\<newline></svg>'')))))\<close>

text \<open>The image element of the combined and of the engraving document, up to its last attribute.\<close>

definition imageAttrs :: "env \<Rightarrow> string \<Rightarrow> jsnum box \<Rightarrow> point \<Rightarrow> string" where
  \<open>imageAttrs e l scaledLogo center =
     (let logoX = jsub (px center) (jdiv (width scaledLogo) (Fin 2));
          logoY = jsub (py center) (jdiv (height scaledLogo) (Fin 2))
      in ''<image \<newline>    href="'' @ l @ ''" \<newline>    x="'' @ num e logoX @ ''" y="''
           @ num e logoY @ ''" \<newline>    width="'' @ num e (width scaledLogo) @ ''" height="''
           @ num e (height scaledLogo)
           @ ''" \<newline>    preserveAspectRatio="xMidYMid meet"\<newline>'')\<close>

definition svgOpenXlink :: "env \<Rightarrow> string" where
  \<open>svgOpenXlink e =
     ''\<newline><svg width="'' @ num e VIEWBOX_SIZE @ ''" height="'' @ num e VIEWBOX_SIZE
       @ ''" viewBox="0 0 '' @ num e VIEWBOX_SIZE @ '' '' @ num e VIEWBOX_SIZE
       @ ''" xmlns="http://www.w3.org/2000/svg" xmlns:xlink="http://www.w3.org/1999/xlink">\<newline>  <defs>\<newline>''\<close>

definition generateCombinedSvg :: "env \<Rightarrow> DesignOptions \<Rightarrow> error + string" where
  \<open>generateCombinedSvg e design =
     (case logoOf design of
        None \<Rightarrow> Inl (Error ''Logo is required to generate the design SVG.'')
      | Some l \<Rightarrow> (case getLogoDimensions e l of
              Inl err \<Rightarrow> Inl err
            | Inr logoDims \<Rightarrow>
                (let center = viewCenter;
                     scaledLogo = scaleToFit logoDims;
                     fontName = fontNameOf e (font design);
                     fontUrl = replace_all_char CHR ''&'' ''&amp;'' (fontUrlOf fontName);
                     fontStyleDef = importStyle fontUrl;
                     textId = ''design-element'';
                     textStyleDefs = getTextStyleDefs (textStyle design) (textColor design)
                       (gradientStartColor design) (gradientEndColor design) textId;
                     textElements = (if trim (text' design) \<noteq> []
                                     then getTextElements e design scaledLogo center else [])
                 in Inr (svgOpenXlink e @ ''    '' @ fontStyleDef @ ''\<newline>    '' @ textStyleDefs
                          @ ''\<newline>  </defs>\<newline>  ''
                          @ imageAttrs e l scaledLogo center
                          @ ''  />\<newline>  '' @ textElements @ ''\<newline></svg>''))))\<close>

definition generateEngravingSvg :: "env \<Rightarrow> DesignOptions \<Rightarrow> error + string" where
  \<open>generateEngravingSvg e design =
     (case logoOf design of
        None \<Rightarrow> Inl (Error ''Logo is required for layout.'')
      | Some l \<Rightarrow> (case getLogoDimensions e l of
              Inl err \<Rightarrow> Inl err
            | Inr logoDims \<Rightarrow>
                (let center = viewCenter;
                     scaledLogo = scaleToFit logoDims
                 in case generateTextOnlySvg e
                           (design\<lparr>textColor := ''#000000'', textStyle := NoStyle\<rparr>) False of
                      Inl err \<Rightarrow> Inl err
                    | Inr textSvg \<Rightarrow>
                        (let textSvgContent =
                               replace_first ''</svg>'' []
                                 (substring textSvg (indexOf textSvg ''<defs>''))
                         in Inr (svgOpenXlink e
                                  @ ''    <filter id="monochrome">\<newline>      <feColorMatrix type="saturate" values="0" />\<newline>    </filter>\<newline>  </defs>\<newline>  ''
                                  @ textSvgContent @ ''\<newline>  ''
                                  @ imageAttrs e l scaledLogo center
                                  @ ''    filter="url(#monochrome)" \<newline>  />\<newline></svg>'')))))\<close>

section \<open>Notions used to state the properties\<close>

text \<open>\<^verbatim>\<open>s.contains(p)\<close>: the string \<open>p\<close> occurs in \<open>s\<close>.\<close>

definition contains :: "string \<Rightarrow> string \<Rightarrow> bool" where
  "contains s p = (0 \<le> indexOf s p)"

text \<open>A text is blank when it is empty or has white space only.\<close>

definition blank :: "string \<Rightarrow> bool" where
  "blank t = list_all is_space t"

text \<open>A concrete environment and a concrete design, for evaluating the service.\<close>

definition env0 :: env where
  "env0 = \<lparr>numFmt = (\<lambda>r. ''?''),
            TSHIRT_FONTS = [(''creepster'', ''Creepster''), (''bebas'', ''Bebas Neue'')],
            imageSize = (\<lambda>u. if u = ''L'' then Some \<lparr>width = 100, height = 200\<rparr> else None),
            fetch = (\<lambda>u. None),
            readAsDataURL = (\<lambda>b. None)\<rparr>"

definition design0 :: DesignOptions where
  "design0 = \<lparr>logo = Some ''L'', text' = ''A B C'', font = ''bebas'', style = Classic,
               textStyle = Shadow, textColor = ''#A78BFA'', gradientStartColor = ''#2563EB'',
               gradientEndColor = ''#B91C1C''\<rparr>"

text \<open>The number of positions of \<open>s\<close> at which \<open>p\<close> occurs.\<close>

fun occurrences :: "string \<Rightarrow> string \<Rightarrow> nat" where
  "occurrences p [] = 0"
| "occurrences p (c # cs) = (if startsWith p (c # cs) then 1 else 0) + occurrences p cs"

text \<open>
  The character \<open>c\<close> is in no number that the environment writes: not in the digits it
  chooses, and not one of the characters of an integer, of \<^verbatim>\<open>Infinity\<close> or of \<^verbatim>\<open>NaN\<close>.
\<close>

definition num_free :: "char \<Rightarrow> env \<Rightarrow> bool" where
  "num_free c e = ((\<forall>r. c \<notin> set (numFmt e r)) \<and> c \<notin> set ''0123456789-InfityNa'')"

text \<open>The character \<open>c\<close> is in no font name of the catalogue.\<close>

definition fonts_free :: "char \<Rightarrow> env \<Rightarrow> bool" where
  "fonts_free c e = (\<forall>entry \<in> set (TSHIRT_FONTS e). c \<notin> set (snd entry))"

text \<open>
  An environment in which both requests succeed (the style sheet names a \<^verbatim>\<open>woff2\<close> file) and
  the \<^verbatim>\<open>FileReader\<close> then fails to read the font.
\<close>

definition envReaderFails :: env where
  "envReaderFails =
     env0\<lparr>fetch := (\<lambda>u. Some \<lparr>ok = True, statusText = ''OK'',
                                 body = Some ''src: url(https://fonts.gstatic.com/s/a.woff2)''\<rparr>),
          readAsDataURL := (\<lambda>b. None)\<rparr>"

text \<open>
  The words of a text: its maximal runs of characters that are not white space, in order.
  \<open>cur\<close> holds the characters of the word being read.
\<close>

fun words_acc :: "string \<Rightarrow> string \<Rightarrow> string list" where
  "words_acc cur [] = (if cur = [] then [] else [cur])"
| "words_acc cur (c # cs) =
     (if is_space c then (if cur = [] then words_acc [] cs else cur # words_acc [] cs)
      else words_acc (cur @ [c]) cs)"

definition words_of :: "string \<Rightarrow> string list" where
  "words_of t = words_acc [] t"

text \<open>
  Reading markup back, as an XML processor does it (XML 1.0). A character is legal when it is
  TAB, LF, CR or not below U+0020 (the production \<^verbatim>\<open>Char\<close>, restricted to the code units of the
  model).
\<close>

definition xmlChar :: "char \<Rightarrow> bool" where
  "xmlChar c = (c = CHR 0x09 \<or> c = CHR 0x0A \<or> c = CHR 0x0D \<or> (32 :: nat) \<le> of_char c)"

text \<open>
  A reference, read from the character after its \<^verbatim>\<open>&\<close>: one of the five predefined entities
  (a document of the service declares no other entity), or a character reference in decimal
  or in hexadecimal digits, which has to denote a legal character. The result is the
  character and the number of characters read. A character reference above U+00FF denotes a
  character that the model does not have, and is not read.
\<close>

definition digitOf :: "nat \<Rightarrow> char \<Rightarrow> nat option" where
  "digitOf base c =
     (let n = (of_char c :: nat)
      in if 48 \<le> n \<and> n \<le> 57 then Some (n - 48)
         else if base = 16 \<and> 65 \<le> n \<and> n \<le> 70 then Some (n - 55)
         else if base = 16 \<and> 97 \<le> n \<and> n \<le> 102 then Some (n - 87)
         else None)"

fun charRefValue :: "nat \<Rightarrow> nat \<Rightarrow> nat \<Rightarrow> string \<Rightarrow> (nat \<times> nat) option" where
  "charRefValue base acc k [] = None"
| "charRefValue base acc k (c # cs) =
     (if c = CHR '';'' then (if k = 0 then None else Some (acc, k + 1))
      else (case digitOf base c of
              None \<Rightarrow> None
            | Some d \<Rightarrow> charRefValue base (acc * base + d) (k + 1) cs))"

definition reference :: "string \<Rightarrow> (char \<times> nat) option" where
  "reference s =
     (if startsWith ''lt;'' s then Some (CHR ''<'', 3)
      else if startsWith ''gt;'' s then Some (CHR ''>'', 3)
      else if startsWith ''amp;'' s then Some (CHR ''&'', 4)
      else if startsWith ''apos;'' s then Some (CHR 0x27, 5)
      else if startsWith ''quot;'' s then Some (CHR 0x22, 5)
      else (case (if startsWith ''#x'' s
                  then map_option (\<lambda>(v, k). (v, k + 2)) (charRefValue 16 0 0 (drop 2 s))
                  else if startsWith ''#'' s
                  then map_option (\<lambda>(v, k). (v, k + 1)) (charRefValue 10 0 0 (drop 1 s))
                  else None) of
              None \<Rightarrow> None
            | Some (v, k) \<Rightarrow>
                if v < 256 \<and> xmlChar (char_of v) then Some (char_of v, k) else None))"







text \<open>An environment in which every image loads with width 0 and height 200.\<close>

definition envZeroWidth :: env where
  "envZeroWidth = env0\<lparr>imageSize := (\<lambda>u. Some \<lparr>width = 0, height = 200\<rparr>)\<rparr>"

text \<open>
  The attributes of a piece of markup, in order, as a reader of the tags finds them. The
  reader is in character data, in a tag (with the name it is reading), or in a quoted
  attribute value (with the attribute's name and the part of the value read so far).
\<close>

datatype scanMode = Content | InTag string | InDQ string string | InSQ string string

fun scan :: "scanMode \<Rightarrow> string \<Rightarrow> (string \<times> string) list" where
  "scan m [] = []"
| "scan Content (c # cs) = (if c = CHR ''<'' then scan (InTag []) cs else scan Content cs)"
| "scan (InTag w) (c # cs) =
     (if c = CHR ''>'' then scan Content cs
      else if c = CHR 0x22 then scan (InDQ w []) cs
      else if c = CHR 0x27 then scan (InSQ w []) cs
      else if c = CHR ''='' then scan (InTag w) cs
      else if is_space c \<or> c = CHR ''/'' then scan (InTag []) cs
      else scan (InTag (w @ [c])) cs)"
| "scan (InDQ w v) (c # cs) =
     (if c = CHR 0x22 then (w, v) # scan (InTag []) cs else scan (InDQ w (v @ [c])) cs)"
| "scan (InSQ w v) (c # cs) =
     (if c = CHR 0x27 then (w, v) # scan (InTag []) cs else scan (InSQ w (v @ [c])) cs)"

text \<open>The ids that a list of attributes declares.\<close>

fun ids_of :: "(string \<times> string) list \<Rightarrow> string list" where
  "ids_of [] = []"
| "ids_of ((n, v) # as) = (if n = ''id'' then v # ids_of as else ids_of as)"

text \<open>
  The ids that a list of attributes refers to: through \<^verbatim>\<open>href="#id"\<close>, and through
  \<^verbatim>\<open>url(#id)\<close> as the value of \<^verbatim>\<open>fill\<close>, \<^verbatim>\<open>filter\<close> or \<^verbatim>\<open>stroke\<close>.
\<close>

fun href_refs_of :: "(string \<times> string) list \<Rightarrow> string list" where
  "href_refs_of [] = []"
| "href_refs_of ((n, v) # as) =
     (if n = ''href'' \<and> startsWith ''#'' v then drop 1 v # href_refs_of as else href_refs_of as)"

fun url_refs_of :: "(string \<times> string) list \<Rightarrow> string list" where
  "url_refs_of [] = []"
| "url_refs_of ((n, v) # as) =
     (if (n = ''fill'' \<or> n = ''filter'' \<or> n = ''stroke'') \<and> startsWith ''url(#'' v
         \<and> last v = CHR '')''
      then butlast (drop 5 v) # url_refs_of as else url_refs_of as)"

definition ids :: "string \<Rightarrow> string list" where
  "ids markup = ids_of (scan Content markup)"

definition href_refs :: "string \<Rightarrow> string list" where
  "href_refs markup = href_refs_of (scan Content markup)"

definition url_refs :: "string \<Rightarrow> string list" where
  "url_refs markup = url_refs_of (scan Content markup)"

text \<open>The id of the filter or gradient that a text style defines under a namespace.\<close>

fun styleIds :: "TextStyle \<Rightarrow> string \<Rightarrow> string list" where
  "styleIds Shadow ns = [''shadow-'' @ ns]"
| "styleIds Glow ns = [''glow-'' @ ns]"
| "styleIds Neon ns = [''neon-'' @ ns]"
| "styleIds ThreeD ns = [''three-d-'' @ ns]"
| "styleIds Metallic ns = [''metallic-'' @ ns]"
| "styleIds Chrome ns = [''chrome-'' @ ns]"
| "styleIds Gradient ns = [''gradient-'' @ ns]"
| "styleIds s ns = []"

text \<open>The ids of the paths that a layout defines.\<close>

fun pathIds :: "LayoutStyle \<Rightarrow> string list" where
  "pathIds Classic = [''text-path-lower'']"
| "pathIds LowerHalfCircle = [''text-path-lower'']"
| "pathIds UpperHalfCircle = [''text-path-upper'']"
| "pathIds UpperOval = [''text-path-upper-oval'']"
| "pathIds LowerOval = [''text-path-lower-oval'']"
| "pathIds FullCircle = [''text-path-top'', ''text-path-bottom'']"
| "pathIds l = []"

text \<open>The three lists together, so that one pass over a piece of markup gives all of them.\<close>

definition refsum :: "(string \<times> string) list \<Rightarrow> string list \<times> string list \<times> string list" where
  "refsum as = (ids_of as, href_refs_of as, url_refs_of as)"

fun tadd ::
  "string list \<times> string list \<times> string list \<Rightarrow> string list \<times> string list \<times> string list
   \<Rightarrow> string list \<times> string list \<times> string list" where
  "tadd (a, b, c) (a', b', c') = (a @ a', b @ b', c @ c')"

text \<open>The number of text elements that a layout writes for a text.\<close>

definition textCount :: "LayoutStyle \<Rightarrow> string \<Rightarrow> nat" where
  "textCount l t =
     (case l of FullCircle \<Rightarrow> 2 | Split \<Rightarrow> 2 | StackedText \<Rightarrow> length (split_ws t) | _ \<Rightarrow> 1)"




text \<open>The attributes, name and value, of the elements named \<open>n\<close>.\<close>

definition attrsIn :: "string \<Rightarrow> (string \<times> string \<times> string) list \<Rightarrow> (string \<times> string) list" where
  "attrsIn n xs = map snd (filter (\<lambda>x. fst x = n) xs)"


text \<open>
  The attributes through which a text style paints (those that \<open>getTextStyleSvg\<close> writes),
  and the ones of them that the \<^verbatim>\<open>text\<close> and \<^verbatim>\<open>textPath\<close> elements of a piece of markup carry.
\<close>

definition paintAttr :: "string \<times> string \<Rightarrow> bool" where
  "paintAttr x =
     (fst x \<in> set [''fill'', ''filter'', ''stroke'', ''stroke-width'', ''stroke-linejoin''])"

definition textPaintIn :: "(string \<times> string \<times> string) list \<Rightarrow> (string \<times> string) list" where
  "textPaintIn xs =
     filter paintAttr (map snd (filter (\<lambda>x. fst x = ''text'' \<or> fst x = ''textPath'') xs))"


text \<open>
  The attributes of the image, of the filter and of its colour matrix, and the paint of the
  text, together, so that one pass over a piece of markup gives all of them.
\<close>

definition esum ::
  "(string \<times> string \<times> string) list
   \<Rightarrow> (string \<times> string) list \<times> (string \<times> string) list \<times> (string \<times> string) list
      \<times> (string \<times> string) list" where
  "esum xs = (attrsIn ''image'' xs, attrsIn ''filter'' xs, attrsIn ''feColorMatrix'' xs,
              textPaintIn xs)"

fun qadd ::
  "'a list \<times> 'b list \<times> 'c list \<times> 'd list \<Rightarrow> 'a list \<times> 'b list \<times> 'c list \<times> 'd list
   \<Rightarrow> 'a list \<times> 'b list \<times> 'c list \<times> 'd list" where
  "qadd (a, b, c, d) (a', b', c', d') = (a @ a', b @ b', c @ c', d @ d')"

section \<open>Properties\<close>

subsection \<open>Strings\<close>

lemma dropWhile_blank: "blank t \<Longrightarrow> dropWhile is_space t = []"
  by (induction t) (simp_all add: blank_def)

lemma trim_blank: "blank t \<Longrightarrow> trim t = []"
  by (simp add: trim_def dropWhile_blank)

lemma trim_empty_blank:
  assumes "trim t = []"
  shows "blank t"
proof -
  from assms have "dropWhile is_space (rev (dropWhile is_space t)) = []"
    by (simp add: trim_def)
  then have all: "\<forall>c \<in> set (dropWhile is_space t). is_space c"
    by (simp add: dropWhile_eq_Nil_conv)
  have "dropWhile is_space t = []"
  proof (cases "dropWhile is_space t")
    case Nil
    then show ?thesis .
  next
    case (Cons c cs)
    then have "\<not> is_space c"
      using hd_dropWhile [of is_space t] by simp
    with all Cons show ?thesis by simp
  qed
  then show ?thesis
    by (simp add: blank_def dropWhile_eq_Nil_conv list_all_iff)
qed

subsection \<open>A missing logo\<close>

lemma logoOf_None: "logo design = None \<Longrightarrow> logoOf design = None"
  by (simp add: logoOf_def)

text \<open>
  C7. When the design has no logo, each of \<open>generateTextOnlySvg\<close>, \<open>generateCombinedSvg\<close> and
  \<open>generateEngravingSvg\<close> rejects with an error that says a logo is required.
\<close>

theorem logo_required:
  assumes "logo design = None"
  shows "generateTextOnlySvg e design embedFont = Inl (Error ''Logo is required for layout.'')
         \<and> generateCombinedSvg e design
             = Inl (Error ''Logo is required to generate the design SVG.'')
         \<and> generateEngravingSvg e design = Inl (Error ''Logo is required for layout.'')"
  using assms
  by (simp add: generateTextOnlySvg_def generateCombinedSvg_def generateEngravingSvg_def
      logoOf_def)

theorem logo_required_witness:
  "logo (design0\<lparr>logo := None\<rparr>) = None
   \<and> generateTextOnlySvg env0 (design0\<lparr>logo := None\<rparr>) True
       = Inl (Error ''Logo is required for layout.'')
   \<and> generateCombinedSvg env0 (design0\<lparr>logo := None\<rparr>)
       = Inl (Error ''Logo is required to generate the design SVG.'')
   \<and> generateEngravingSvg env0 (design0\<lparr>logo := None\<rparr>)
       = Inl (Error ''Logo is required for layout.'')"
  using logo_required [of "design0\<lparr>logo := None\<rparr>" env0 True] by simp

subsection \<open>Blank text\<close>

lemma emptyCanvas_elements:
  "\<not> contains emptyCanvas ''<text''" "\<not> contains emptyCanvas ''<path''"
  by (simp_all add: contains_def indexOf_def emptyCanvas_def)

text \<open>
  C9, amended. For every design that has a logo and whose text is empty or white space only,
  \<open>generateTextOnlySvg\<close> returns, without error and whatever the other options are, the
  empty 1000 by 1000 canvas, which has no text and no path element.
\<close>

theorem blank_text_empty_canvas:
  assumes "logoOf design = Some l" and "blank (text' design)"
  shows \<open>generateTextOnlySvg e design embedFont
           = Inr ''<svg xmlns="http://www.w3.org/2000/svg" width="1000" height="1000"></svg>''
         \<and> \<not> contains ''<svg xmlns="http://www.w3.org/2000/svg" width="1000" height="1000"></svg>''
                 ''<text''
         \<and> \<not> contains ''<svg xmlns="http://www.w3.org/2000/svg" width="1000" height="1000"></svg>''
                 ''<path''\<close>
  using assms emptyCanvas_elements
  by (simp add: generateTextOnlySvg_def trim_blank emptyCanvas_def)

theorem blank_text_empty_canvas_witness:
  \<open>logoOf (design0\<lparr>text' := '' ''\<rparr>) = Some ''L'' \<and> blank (text' (design0\<lparr>text' := '' ''\<rparr>))
   \<and> generateTextOnlySvg env0 (design0\<lparr>text' := '' ''\<rparr>) True
       = Inr ''<svg xmlns="http://www.w3.org/2000/svg" width="1000" height="1000"></svg>''\<close>
  using blank_text_empty_canvas [of "design0\<lparr>text' := '' ''\<rparr>" "''L''" env0 True]
  by (simp add: logoOf_def design0_def blank_def is_space_def)

text \<open>
  C9 as stated does not hold: a design with blank text and no logo is rejected, because the
  logo is tested first.
\<close>

theorem blank_text_without_logo_counterexample:
  "blank (text' (design0\<lparr>logo := None, text' := []\<rparr>))
   \<and> generateTextOnlySvg env0 (design0\<lparr>logo := None, text' := []\<rparr>) False
       = Inl (Error ''Logo is required for layout.'')"
  by (simp add: generateTextOnlySvg_def logoOf_def blank_def)

subsection \<open>Characters that a piece of markup is free of\<close>

lemma num_VIEWBOX [simp]: "num_str f VIEWBOX_SIZE = ''1000''"
  by (simp add: VIEWBOX_SIZE_def num_str.simps dec.simps)

lemma set_dec: "set (dec n) \<subseteq> set ''0123456789''"
proof (induction n rule: dec.induct)
  case (1 n)
  have d: "''0123456789'' ! k \<in> set ''0123456789''" if "k < 10" for k
    using that nth_mem [of k "''0123456789''"] by simp
  show ?case
  proof (cases "n < 10")
    case True
    then show ?thesis using d [of n] by (subst dec.simps) simp
  next
    case False
    then show ?thesis using 1 d [of "n mod 10"] by (subst dec.simps) auto
  qed
qed

lemma num_free_num: "num_free c e \<Longrightarrow> c \<notin> set (num e x)"
proof (cases x)
  case (Fin a)
  assume nf: "num_free c e"
  then have "c \<notin> set ''0123456789''" "c \<noteq> CHR ''-''" by (auto simp: num_free_def)
  then have "c \<notin> set (dec k)" for k using set_dec [of k] by blast
  with nf \<open>c \<noteq> CHR ''-''\<close> show ?thesis by (simp add: Fin num_free_def num_str.simps)
qed (auto simp: num_free_def num_str.simps)

lemma escapeChar_free:
  "c = CHR ''<'' \<or> c = CHR ''>'' \<or> c = CHR 0x27 \<or> c = CHR 0x22 \<Longrightarrow> c \<notin> set (escapeChar d)"
  by (auto simp: escapeChar_def)

lemma escapeXml_free:
  "c = CHR ''<'' \<or> c = CHR ''>'' \<or> c = CHR 0x27 \<or> c = CHR 0x22 \<Longrightarrow> c \<notin> set (escapeXml t)"
  using escapeChar_free [of c] by (simp add: escapeXml_def)

lemma fontNameOf_free:
  assumes "fonts_free c e" and "c \<notin> set ''Impact''"
  shows "c \<notin> set (fontNameOf e f)"
proof (cases "find (\<lambda>entry. fst entry = f) (TSHIRT_FONTS e)")
  case None
  with assms show ?thesis by (simp add: fontNameOf_def)
next
  case (Some entry)
  then have "entry \<in> set (TSHIRT_FONTS e)"
    by (auto simp: find_Some_iff)
  with assms Some show ?thesis by (auto simp: fontNameOf_def fonts_free_def)
qed

lemma replace_all_char_free:
  "c \<notin> set s \<Longrightarrow> c \<notin> set r \<Longrightarrow> c \<notin> set (replace_all_char d r s)"
  by (induction s) (auto simp: replace_all_char_def)

lemma fontUrl_free:
  assumes "fonts_free CHR ''<'' e"
  shows "CHR ''<'' \<notin> set (replace_all_char CHR ''&'' ''&amp;'' (fontUrlOf (fontNameOf e f)))"
proof -
  have "CHR ''<'' \<notin> set (fontNameOf e f)"
    using assms by (rule fontNameOf_free) simp
  then have "CHR ''<'' \<notin> set (fontUrlOf (fontNameOf e f))"
    by (simp add: fontUrlOf_def replace_all_char_free)
  then show ?thesis by (simp add: replace_all_char_free)
qed



subsection \<open>Searching past a piece that lacks the first character of the pattern\<close>


lemma occurrences_skip:
  "c \<notin> set seg \<Longrightarrow> occurrences (c # p) (seg @ rest) = occurrences (c # p) rest"
  by (induction seg) auto



subsection \<open>The engraving document\<close>

lemma indexOf_emptyCanvas: "indexOf emptyCanvas ''<defs>'' = - 1"
  by (simp add: indexOf_def emptyCanvas_def)

lemma substring_neg: "substring s (- 1) = s"
  by (simp add: substring_def)

lemma textOnly_blank:
  "logoOf design = Some l \<Longrightarrow> blank (text' design)
   \<Longrightarrow> generateTextOnlySvg e (design\<lparr>textColor := c, textStyle := s\<rparr>) b = Inr emptyCanvas"
  by (simp add: generateTextOnlySvg_def logoOf_def trim_blank)

lemma engraving_blank:
  assumes "logoOf design = Some l" and "blank (text' design)" and "imageSize e l = Some dims"
  shows \<open>generateEngravingSvg e design =
     Inr (svgOpenXlink e
          @ ''    <filter id="monochrome">\<newline>      <feColorMatrix type="saturate" values="0" />\<newline>    </filter>\<newline>  </defs>\<newline>  ''
          @ ''<svg xmlns="http://www.w3.org/2000/svg" width="1000" height="1000">''
          @ ''\<newline>  '' @ imageAttrs e l (scaleToFit dims) viewCenter
          @ ''    filter="url(#monochrome)" \<newline>  />\<newline></svg>'')\<close>
proof -
  have c: \<open>replace_first ''</svg>'' [] (substring emptyCanvas (indexOf emptyCanvas ''<defs>''))
    = ''<svg xmlns="http://www.w3.org/2000/svg" width="1000" height="1000">''\<close>
    by (simp add: indexOf_emptyCanvas substring_neg) (simp add: emptyCanvas_def)
  show ?thesis
    using assms
    by (simp add: generateEngravingSvg_def getLogoDimensions_def textOnly_blank [OF assms(1,2)] c)
qed

lemma engraving_blank_counts:
  assumes "logoOf design = Some l" and "blank (text' design)" and "imageSize e l = Some dims"
    and "CHR ''<'' \<notin> set l" and "num_free CHR ''<'' e"
  shows "case generateEngravingSvg e design of
           Inr doc \<Rightarrow> occurrences ''<svg'' doc = 2 \<and> occurrences ''</svg>'' doc = 1
         | Inl err \<Rightarrow> False"
  using assms(4) num_free_num [OF assms(5)]
  by (simp add: engraving_blank [OF assms(1-3)] svgOpenXlink_def imageAttrs_def occurrences_skip)

text \<open>
  C10. For a design with a logo (one that loads) and blank text, the inner text-only document
  is the empty canvas; it has no \<^verbatim>\<open><defs>\<close>, so \<open>indexOf\<close> gives \<open>-1\<close> and \<open>substring\<close> the
  whole string, and the engraving document embeds the canvas's opening \<^verbatim>\<open><svg ...>\<close> tag.
  When neither the logo nor a number contains \<^verbatim>\<open><\<close>, the output has two \<^verbatim>\<open><svg\<close> and one
  \<^verbatim>\<open></svg>\<close>.
\<close>

theorem engraving_blank_text_nests_svg:
  assumes "logoOf design = Some l" and "blank (text' design)" and "imageSize e l = Some dims"
  shows \<open>generateTextOnlySvg e (design\<lparr>textColor := ''#000000'', textStyle := NoStyle\<rparr>) False
           = Inr emptyCanvas
         \<and> \<not> contains emptyCanvas ''<defs>''
         \<and> indexOf emptyCanvas ''<defs>'' = - 1
         \<and> substring emptyCanvas (indexOf emptyCanvas ''<defs>'') = emptyCanvas
         \<and> generateEngravingSvg e design =
             Inr (svgOpenXlink e
                  @ ''    <filter id="monochrome">\<newline>      <feColorMatrix type="saturate" values="0" />\<newline>    </filter>\<newline>  </defs>\<newline>  ''
                  @ ''<svg xmlns="http://www.w3.org/2000/svg" width="1000" height="1000">''
                  @ ''\<newline>  '' @ imageAttrs e l (scaleToFit dims) viewCenter
                  @ ''    filter="url(#monochrome)" \<newline>  />\<newline></svg>'')
         \<and> (CHR ''<'' \<notin> set l \<and> num_free CHR ''<'' e \<longrightarrow>
              (case generateEngravingSvg e design of
                 Inr doc \<Rightarrow> occurrences ''<svg'' doc = 2 \<and> occurrences ''</svg>'' doc = 1
               | Inl err \<Rightarrow> False))\<close>
  using engraving_blank [OF assms] engraving_blank_counts [OF assms] textOnly_blank [OF assms(1,2)]
  by (simp add: indexOf_emptyCanvas substring_neg contains_def)

theorem engraving_blank_text_nests_svg_witness:
  \<open>logoOf (design0\<lparr>text' := '' ''\<rparr>) = Some ''L'' \<and> blank (text' (design0\<lparr>text' := '' ''\<rparr>))
   \<and> imageSize env0 ''L'' = Some \<lparr>width = 100, height = 200\<rparr>
   \<and> CHR ''<'' \<notin> set ''L'' \<and> num_free CHR ''<'' env0
   \<and> (case generateEngravingSvg env0 (design0\<lparr>text' := '' ''\<rparr>) of
         Inr doc \<Rightarrow> occurrences ''<svg'' doc = 2 \<and> occurrences ''</svg>'' doc = 1
       | Inl err \<Rightarrow> False)\<close>
proof -
  have h1: "logoOf (design0\<lparr>text' := '' ''\<rparr>) = Some ''L''"
    by (simp add: logoOf_def design0_def)
  have h2: "blank (text' (design0\<lparr>text' := '' ''\<rparr>))"
    by (simp add: blank_def is_space_def)
  have h3: "imageSize env0 ''L'' = Some \<lparr>width = 100, height = 200\<rparr>"
    by (simp add: env0_def)
  have h4: "CHR ''<'' \<notin> set ''L'' \<and> num_free CHR ''<'' env0"
    by (simp add: env0_def num_free_def)
  from engraving_blank_text_nests_svg [OF h1 h2 h3] h4
  have "case generateEngravingSvg env0 (design0\<lparr>text' := '' ''\<rparr>) of
          Inr doc \<Rightarrow> occurrences ''<svg'' doc = 2 \<and> occurrences ''</svg>'' doc = 1
        | Inl err \<Rightarrow> False"
    by blast
  with h1 h2 h3 h4 show ?thesis by blast
qed

lemma textOnly_link:
  assumes "logoOf design = Some l" and "\<not> blank (text' design)" and "imageSize e l = Some dims"
  shows \<open>generateTextOnlySvg e design False =
     Inr (''\<newline><svg width="1000" height="1000" viewBox="0 0 1000 1000" xmlns="http://www.w3.org/2000/svg">\<newline>  <defs>\<newline>    ''
          @ importStyle (replace_all_char CHR ''&'' ''&amp;'' (fontUrlOf (fontNameOf e (font design))))
          @ ''\<newline>    ''
          @ getTextStyleDefs (textStyle design) (textColor design) (gradientStartColor design)
              (gradientEndColor design) ''text-element''
          @ ''\<newline>  </defs>\<newline>  '' @ getTextElements e design (scaleToFit dims) viewCenter
          @ ''\<newline></svg>'')\<close>
proof -
  have "trim (text' design) \<noteq> []"
    using assms(2) trim_empty_blank by blast
  then show ?thesis
    using assms(1,3)
    by (simp add: generateTextOnlySvg_def getLogoDimensions_def fontStyleDefOf_def Let_def)
qed


lemma logoOf_update [simp]:
  "logoOf (design\<lparr>textColor := c, textStyle := s\<rparr>) = logoOf design"
  by (simp add: logoOf_def)

lemma engraving_shape:
  assumes "logoOf design = Some l" and "imageSize e l = Some dims"
  shows \<open>\<exists>textSvg. generateTextOnlySvg e (design\<lparr>textColor := ''#000000'', textStyle := NoStyle\<rparr>) False
             = Inr textSvg
         \<and> generateEngravingSvg e design =
             Inr (svgOpenXlink e
                  @ ''    <filter id="monochrome">\<newline>      <feColorMatrix type="saturate" values="0" />\<newline>    </filter>\<newline>  </defs>\<newline>  ''
                  @ replace_first ''</svg>'' [] (substring textSvg (indexOf textSvg ''<defs>''))
                  @ ''\<newline>  '' @ imageAttrs e l (scaleToFit dims) viewCenter
                  @ ''    filter="url(#monochrome)" \<newline>  />\<newline></svg>'')\<close>
proof (cases "blank (text' design)")
  case True
  then show ?thesis
    using assms textOnly_blank [OF assms(1) True]
    by (simp add: generateEngravingSvg_def getLogoDimensions_def)
next
  case False
  then have nb: "\<not> blank (text' (design\<lparr>textColor := ''#000000'', textStyle := NoStyle\<rparr>))"
    by simp
  have lg: "logoOf (design\<lparr>textColor := ''#000000'', textStyle := NoStyle\<rparr>) = Some l"
    using assms(1) by simp
  show ?thesis
    using assms textOnly_link [OF lg nb assms(2)]
    by (simp add: generateEngravingSvg_def getLogoDimensions_def)
qed

lemma esum_Nil [simp]: "esum [] = ([], [], [], [])"
  by (simp add: esum_def attrsIn_def textPaintIn_def)

lemma esum_Cons [simp]:
  "esum ((t, a, v) # xs) =
     qadd (if t = ''image'' then [(a, v)] else [],
           if t = ''filter'' then [(a, v)] else [],
           if t = ''feColorMatrix'' then [(a, v)] else [],
           if (t = ''text'' \<or> t = ''textPath'')
              \<and> a \<in> set [''fill'', ''filter'', ''stroke'', ''stroke-width'', ''stroke-linejoin'']
           then [(a, v)] else [])
          (esum xs)"
  by (auto simp: esum_def attrsIn_def textPaintIn_def paintAttr_def)

lemma qadd_empty [simp]: "qadd ([], [], [], []) x = x"
  by (cases x) simp

lemma qadd_assoc [simp]:
  "qadd (a, b, c, d) (qadd (a', b', c', d') z) = qadd (a @ a', b @ b', c @ c', d @ d') z"
  by (cases z) simp














subsection \<open>The font resolver\<close>

text \<open>
  \<open>fetchAndEncodeFont\<close> rejects exactly when both requests succeed, the style sheet names a
  \<^verbatim>\<open>woff2\<close> file and the reader then reports an error; every other failure gives the empty
  asset.
\<close>

lemma fetchAndEncodeFont_rejects_iff:
  "fetchAndEncodeFont e u = Inl err \<longleftrightarrow>
     err = ReaderErrorEvent \<and>
     (\<exists>r1 css fileUrl r2 blob.
        fetch e u = Some r1 \<and> ok r1 \<and> body r1 = Some css \<and> match_woff2 css = Some fileUrl
        \<and> fetch e fileUrl = Some r2 \<and> ok r2 \<and> body r2 = Some blob
        \<and> readAsDataURL e blob = None)"
  by (auto simp: fetchAndEncodeFont_def fetchAndEncodeFont_try_def
      split: option.splits completion.splits if_splits)

lemma fetch_failure_empty_asset:
  "fetch e u = None \<or> (\<exists>r. fetch e u = Some r \<and> (\<not> ok r \<or> body r = None))
   \<Longrightarrow> fetchAndEncodeFont e u = Inr emptyAsset"
  by (auto simp: fetchAndEncodeFont_def fetchAndEncodeFont_try_def)

lemma empty_asset_falls_back_to_import:
  "fetchAndEncodeFont e u = Inr emptyAsset
   \<Longrightarrow> fontStyleDefOf e n u True = Inr (importStyle (replace_all_char CHR ''&'' ''&amp;'' u))"
  by (simp add: fontStyleDefOf_def emptyAsset_def)

text \<open>
  C2, at the input where it fails. Both requests succeed and the reader reports an error:
  the promise that \<open>fetchAndEncodeFont\<close> returns without awaiting rejects, \<^verbatim>\<open>catch\<close> does not
  see it, and \<open>generateTextOnlySvg\<close> with \<open>embedFont = true\<close> rejects too.
\<close>

theorem font_reader_failure_rejects:
  "fetchAndEncodeFont envReaderFails (fontUrlOf ''Bebas Neue'') = Inl ReaderErrorEvent
   \<and> generateTextOnlySvg envReaderFails design0 True = Inl ReaderErrorEvent"
proof -
  have f: "fetchAndEncodeFont envReaderFails u = Inl ReaderErrorEvent" for u
    by (simp add: fetchAndEncodeFont_def fetchAndEncodeFont_try_def envReaderFails_def
        match_woff2_here_def)
  have t: "trim (text' design0) \<noteq> []"
    by (simp add: design0_def trim_def is_space_def)
  have i: "imageSize envReaderFails ''L'' = Some \<lparr>width = 100, height = 200\<rparr>"
    by (simp add: envReaderFails_def env0_def)
  have l: "logoOf design0 = Some ''L''"
    by (simp add: logoOf_def design0_def)
  show ?thesis
    using t by (simp add: f i l generateTextOnlySvg_def getLogoDimensions_def fontStyleDefOf_def
        Let_def)
qed

subsection \<open>Splitting the text into two halves\<close>

lemma split_ws_nonempty: "split_ws s \<noteq> []"
  by (induction s) (auto split: list.splits)

lemma hd_split_ws_space: "s \<noteq> [] \<Longrightarrow> is_space (hd s) \<Longrightarrow> hd (split_ws s) = []"
  by (induction s) (auto split: list.splits)

lemma hd_split_ws_word: "s \<noteq> [] \<Longrightarrow> \<not> is_space (hd s) \<Longrightarrow> hd (split_ws s) \<noteq> []"
  by (cases s) (auto split: list.splits)

lemma words_acc_split_ws:
  "words_acc cur s = filter (\<lambda>w. w \<noteq> []) ((cur @ hd (split_ws s)) # tl (split_ws s))"
proof (induction s arbitrary: cur)
  case Nil
  show ?case by simp
next
  case (Cons c cs)
  obtain w ws where sp: "split_ws cs = w # ws"
    using split_ws_nonempty [of cs] by (cases "split_ws cs") auto
  show ?case
  proof (cases "is_space c")
    case False
    then show ?thesis using Cons [of "cur @ [c]"] by (simp add: sp)
  next
    case True
    show ?thesis
    proof (cases "cs \<noteq> [] \<and> is_space (hd cs)")
      case True
      with hd_split_ws_space [of cs] sp have "w = []" by simp
      with True \<open>is_space c\<close> Cons [of "[]"] show ?thesis by (simp add: sp)
    next
      case False
      with \<open>is_space c\<close> Cons [of "[]"] show ?thesis by (auto simp: sp)
    qed
  qed
qed

lemma words_of_split_ws: "words_of t = filter (\<lambda>w. w \<noteq> []) (split_ws t)"
  using words_acc_split_ws [of "[]" t] split_ws_nonempty [of t]
  by (cases "split_ws t") (simp_all add: words_of_def)

lemma tl_split_ws_words:
  "s \<noteq> [] \<Longrightarrow> \<not> is_space (last s) \<Longrightarrow> [] \<notin> set (tl (split_ws s))"
proof (induction s)
  case Nil
  then show ?case by simp
next
  case (Cons c cs)
  show ?case
  proof (cases "cs = []")
    case True
    with Cons.prems show ?thesis by simp
  next
    case False
    with Cons have ih: "[] \<notin> set (tl (split_ws cs))" by simp
    obtain w ws where sp: "split_ws cs = w # ws"
      using split_ws_nonempty [of cs] by (cases "split_ws cs") auto
    show ?thesis
    proof (cases "is_space c")
      case nsp: False
      with ih show ?thesis by (simp add: sp)
    next
      case True
      show ?thesis
      proof (cases "is_space (hd cs)")
        case True
        with \<open>is_space c\<close> False ih show ?thesis by simp
      next
        case nh: False
        with hd_split_ws_word [OF False] sp have "w \<noteq> []" by simp
        with \<open>is_space c\<close> nh ih show ?thesis by (auto simp: sp)
      qed
    qed
  qed
qed

lemma split_ws_words:
  assumes "t \<noteq> []" and "\<not> is_space (hd t)" and "\<not> is_space (last t)"
  shows "split_ws t = words_of t"
proof -
  obtain w ws where sp: "split_ws t = w # ws"
    using split_ws_nonempty [of t] by (cases "split_ws t") auto
  have "w \<noteq> []" using hd_split_ws_word [OF assms(1,2)] sp by simp
  moreover have "[] \<notin> set ws" using tl_split_ws_words [OF assms(1,3)] sp by simp
  ultimately have "filter (\<lambda>w. w \<noteq> []) (split_ws t) = split_ws t"
    by (auto simp: sp filter_id_conv)
  then show ?thesis by (simp add: words_of_split_ws)
qed

lemma ceil_half: "(n + 1) div 2 = nat \<lceil>(of_nat n :: rat) / 2\<rceil>"
proof -
  have "\<lceil>(of_nat n :: rat) / 2\<rceil> = \<lceil>(of_int (int n) :: rat) / of_int 2\<rceil>"
    by simp
  also have "\<dots> = - (- int n div 2)"
    by (rule ceiling_divide_eq_div)
  also have "\<dots> = (int n + 1) div 2"
    by presburger
  finally have "nat \<lceil>(of_nat n :: rat) / 2\<rceil> = nat ((int n + 1) div 2)"
    by simp
  also have "\<dots> = (n + 1) div 2"
    by (simp add: nat_div_distrib nat_add_distrib)
  finally show ?thesis by simp
qed

lemma ceil_half_Suc: "Suc n div 2 = nat \<lceil>(of_nat n :: rat) / 2\<rceil>"
  using ceil_half [of n] by simp

text \<open>
  C8, amended. For every text that neither starts nor ends with white space, with \<open>N\<close>
  words, the first half is the first \<open>ceil(N/2)\<close> words joined by single spaces and the second
  half is the rest, and \<open>full_circle\<close> and \<open>split\<close> put these two strings (escaped) in their
  first and second text element. The text \<^verbatim>\<open>A B C\<close> gives \<^verbatim>\<open>A B\<close> and \<^verbatim>\<open>C\<close>.
\<close>

theorem halves_by_word_count:
  assumes "text' design \<noteq> []" and "\<not> is_space (hd (text' design))"
    and "\<not> is_space (last (text' design))"
  shows "(let ws = words_of (text' design);
              m = nat \<lceil>(of_nat (length ws) :: rat) / 2\<rceil>;
              firstHalf = join '' '' (take m ws);
              secondHalf = join '' '' (drop m ws)
          in halves (text' design) = (firstHalf, secondHalf)
             \<and> (style design = FullCircle \<longrightarrow>
                  getTextElements e design sl c
                    = fullCircleMarkup e (commonTextProps e design) sl c firstHalf secondHalf)
             \<and> (style design = Split \<longrightarrow>
                  getTextElements e design sl c
                    = splitMarkup e (commonTextProps e design) sl c firstHalf secondHalf))
         \<and> halves ''A B C'' = (''A B'', ''C'')"
proof -
  have h: "halves (text' design)
      = (join '' '' (take (nat \<lceil>(of_nat (length (words_of (text' design))) :: rat) / 2\<rceil>)
                        (words_of (text' design))),
         join '' '' (drop (nat \<lceil>(of_nat (length (words_of (text' design))) :: rat) / 2\<rceil>)
                        (words_of (text' design))))"
    by (simp add: halves_def split_ws_words [OF assms] ceil_half_Suc Let_def)
  have abc: "halves ''A B C'' = (''A B'', ''C'')"
    by (simp add: halves_def is_space_def)
  show ?thesis
    unfolding Let_def using h abc by (simp add: getTextElements_def Let_def)
qed

theorem halves_by_word_count_witness:
  "text' (design0\<lparr>style := FullCircle\<rparr>) \<noteq> []
   \<and> \<not> is_space (hd (text' (design0\<lparr>style := FullCircle\<rparr>)))
   \<and> \<not> is_space (last (text' (design0\<lparr>style := FullCircle\<rparr>)))
   \<and> getTextElements env0 (design0\<lparr>style := FullCircle\<rparr>)
         (scaleToFit \<lparr>width = 100, height = 200\<rparr>) viewCenter
       = fullCircleMarkup env0 (commonTextProps env0 (design0\<lparr>style := FullCircle\<rparr>))
           (scaleToFit \<lparr>width = 100, height = 200\<rparr>) viewCenter
           ''A B'' ''C''"
proof -
  have t: "text' (design0\<lparr>style := FullCircle\<rparr>) = ''A B C''"
    by (simp add: design0_def)
  have h: "text' (design0\<lparr>style := FullCircle\<rparr>) \<noteq> []
      \<and> \<not> is_space (hd (text' (design0\<lparr>style := FullCircle\<rparr>)))
      \<and> \<not> is_space (last (text' (design0\<lparr>style := FullCircle\<rparr>)))"
    by (simp add: t is_space_def)
  have w: "words_of ''A B C'' = [''A'', ''B'', ''C'']"
    by (simp add: words_of_def is_space_def)
  have m: "nat \<lceil>(of_nat (length [''A'', ''B'', ''C'']) :: rat) / 2\<rceil> = 2"
    using ceil_half [of 3] by simp
  from h halves_by_word_count [of "design0\<lparr>style := FullCircle\<rparr>" env0
      "scaleToFit \<lparr>width = 100, height = 200\<rparr>" viewCenter]
  show ?thesis
    unfolding Let_def t w m by simp
qed

text \<open>
  C8 as stated does not hold: the text \<^verbatim>\<open> A B C\<close>, with a space in front, has the three
  words A, B, C, but \<^verbatim>\<open>split(/\s+/)\<close> gives an empty first piece, and the first half gets the
  one word A, not the two words A B.
\<close>

theorem leading_space_halves_counterexample:
  "words_of '' A B C'' = [''A'', ''B'', ''C'']
   \<and> join '' '' (take (nat \<lceil>(of_nat (length [''A'', ''B'', ''C'']) :: rat) / 2\<rceil>)
                   [''A'', ''B'', ''C'']) = ''A B''
   \<and> halves '' A B C'' = ('' A'', ''B C'')
   \<and> getTextElements env0 (design0\<lparr>style := Split, text' := '' A B C''\<rparr>)
         (scaleToFit \<lparr>width = 100, height = 200\<rparr>) viewCenter
       = splitMarkup env0 (commonTextProps env0 (design0\<lparr>style := Split, text' := '' A B C''\<rparr>))
           (scaleToFit \<lparr>width = 100, height = 200\<rparr>) viewCenter '' A'' ''B C''"
proof -
  have m: "nat \<lceil>(of_nat (length [''A'', ''B'', ''C'']) :: rat) / 2\<rceil> = 2"
    using ceil_half [of 3] by simp
  have h: "halves '' A B C'' = ('' A'', ''B C'')"
    by (simp add: halves_def is_space_def)
  show ?thesis
    unfolding m by (simp add: words_of_def is_space_def h getTextElements_def Let_def)
qed

subsection \<open>Escaping\<close>







lemma reference_entities [simp]:
  "reference (CHR ''l'' # CHR ''t'' # CHR '';'' # r) = Some (CHR ''<'', 3)"
  "reference (CHR ''g'' # CHR ''t'' # CHR '';'' # r) = Some (CHR ''>'', 3)"
  "reference (CHR ''a'' # CHR ''m'' # CHR ''p'' # CHR '';'' # r) = Some (CHR ''&'', 4)"
  "reference (CHR ''a'' # CHR ''p'' # CHR ''o'' # CHR ''s'' # CHR '';'' # r) = Some (CHR 0x27, 5)"
  "reference (CHR ''q'' # CHR ''u'' # CHR ''o'' # CHR ''t'' # CHR '';'' # r) = Some (CHR 0x22, 5)"
  by (simp_all add: reference_def)




























subsection \<open>Rounding to a double\<close>

lemma ilog2_bounds:
  assumes "0 < x"
  shows "2 powi (ilog2 x) \<le> x \<and> x < 2 powi (ilog2 x + 1)"
proof (cases "1 \<le> x")
  case True
  define n where "n = \<lfloor>x\<rfloor>"
  have n: "0 < n" using True by (simp add: n_def)
  have b: "2 ^ nat (bitlen n - 1) \<le> n" "n < 2 ^ nat (bitlen n)"
    using bitlen_bounds [OF n] by simp_all
  have bp: "1 \<le> bitlen n" using n by (simp add: bitlen_alt_def floorlog_def split: if_splits)
  have e: "ilog2 x = bitlen n - 1" using True by (simp add: ilog2_def n_def)
  have "(2::rat) powi (bitlen n - 1) = 2 ^ nat (bitlen n - 1)"
    using bp by (simp add: power_int_def)
  also have "\<dots> = of_int (2 ^ nat (bitlen n - 1))" by simp
  also have "\<dots> \<le> of_int n" using b(1) by (simp only: of_int_le_iff)
  also have "\<dots> \<le> x" by (simp add: n_def)
  finally have lo: "2 powi (ilog2 x) \<le> x" by (simp add: e)
  have "x < of_int (n + 1)" using floor_correct [of x] by (simp add: n_def)
  also have "\<dots> \<le> of_int (2 ^ nat (bitlen n))" using b(2) by (simp only: of_int_le_iff)
  also have "\<dots> = (2::rat) powi (bitlen n)" using bp by (simp add: power_int_def)
  finally have "x < 2 powi (ilog2 x + 1)" by (simp add: e)
  with lo show ?thesis by simp
next
  case False
  define c where "c = \<lceil>1 / x\<rceil>"
  define k where "k = bitlen (c - 1)"
  have y: "1 < 1 / x" using False assms by simp
  then have c2: "2 \<le> c" unfolding c_def by (simp add: le_ceiling_iff)
  then have c1: "0 < c - 1" by simp
  have b: "2 ^ nat (k - 1) \<le> c - 1" "c - 1 < 2 ^ nat k"
    using bitlen_bounds [OF c1] by (simp_all add: k_def)
  have kp: "1 \<le> k" using c1 by (simp add: k_def bitlen_alt_def floorlog_def split: if_splits)
  have e: "ilog2 x = - k" using False by (simp add: ilog2_def k_def c_def)
  have "1 / x \<le> of_int c" by (simp add: c_def)
  also have "\<dots> \<le> of_int (2 ^ nat k)" using b(2) by (simp only: of_int_le_iff)
  also have "\<dots> = (2::rat) ^ nat k" by simp
  finally have "1 / x \<le> 2 ^ nat k" .
  then have "1 / 2 ^ nat k \<le> x" using assms
    by (simp add: field_simps)
  moreover have "(2::rat) powi (- k) = 1 / 2 ^ nat k"
    using kp by (simp add: power_int_def field_simps)
  ultimately have lo: "2 powi (ilog2 x) \<le> x" by (simp add: e)
  have "(2::rat) ^ nat (k - 1) = of_int (2 ^ nat (k - 1))" by simp
  also have "\<dots> \<le> of_int (c - 1)" using b(1) by (simp only: of_int_le_iff)
  also have "\<dots> < 1 / x" unfolding c_def using ceiling_correct [of "1 / x"] by simp
  finally have "2 ^ nat (k - 1) < 1 / x" .
  then have "x < 1 / 2 ^ nat (k - 1)" using assms by (simp add: field_simps)
  moreover have "(2::rat) powi (- k + 1) = 1 / 2 ^ nat (k - 1)"
    using kp by (simp add: power_int_def field_simps)
  ultimately have "x < 2 powi (ilog2 x + 1)" by (simp add: e)
  with lo show ?thesis by simp
qed

lemma ilog2_unique:
  assumes "0 < x" and "2 powi e \<le> x" and "x < 2 powi (e + 1)"
  shows "ilog2 x = e"
proof (rule antisym)
  have b: "2 powi (ilog2 x) \<le> x" "x < 2 powi (ilog2 x + 1)"
    using ilog2_bounds [OF assms(1)] by simp_all
  show "ilog2 x \<le> e"
  proof (rule ccontr)
    assume "\<not> ilog2 x \<le> e"
    then have "e + 1 \<le> ilog2 x" by simp
    then have "(2::rat) powi (e + 1) \<le> 2 powi (ilog2 x)"
      by (rule power_int_increasing) simp
    with b(1) assms(3) show False by simp
  qed
  show "e \<le> ilog2 x"
  proof (rule ccontr)
    assume "\<not> e \<le> ilog2 x"
    then have "ilog2 x + 1 \<le> e" by simp
    then have "(2::rat) powi (ilog2 x + 1) \<le> 2 powi e"
      by (rule power_int_increasing) simp
    with b(2) assms(2) show False by simp
  qed
qed

lemma ilog2_mono:
  assumes "0 < x" and "x \<le> y"
  shows "ilog2 x \<le> ilog2 y"
proof (rule ccontr)
  assume "\<not> ilog2 x \<le> ilog2 y"
  then have "ilog2 y + 1 \<le> ilog2 x" by simp
  then have "(2::rat) powi (ilog2 y + 1) \<le> 2 powi (ilog2 x)"
    by (rule power_int_increasing) simp
  moreover have "y < 2 powi (ilog2 y + 1)" "2 powi (ilog2 x) \<le> x"
    using ilog2_bounds [of x] ilog2_bounds [of y] assms by simp_all
  ultimately show False using assms(2) by simp
qed

lemma rhe_bounds:
  "of_int (round_half_even m) \<le> m + 1 / 2" "m - 1 / 2 \<le> of_int (round_half_even m)"
proof -
  have f: "of_int \<lfloor>m\<rfloor> \<le> m" "m < of_int \<lfloor>m\<rfloor> + 1"
    using floor_correct [of m] by simp_all
  have r: "round_half_even m = \<lfloor>m\<rfloor> \<and> m - of_int \<lfloor>m\<rfloor> \<le> 1 / 2
      \<or> round_half_even m = \<lfloor>m\<rfloor> + 1 \<and> 1 / 2 \<le> m - of_int \<lfloor>m\<rfloor>"
    by (simp add: round_half_even_def Let_def)
  then have q: "(of_int (round_half_even m) :: rat) = of_int \<lfloor>m\<rfloor> \<and> m - of_int \<lfloor>m\<rfloor> \<le> 1 / 2
      \<or> (of_int (round_half_even m) :: rat) = of_int \<lfloor>m\<rfloor> + 1 \<and> 1 / 2 \<le> m - of_int \<lfloor>m\<rfloor>"
    by auto
  from q f show "of_int (round_half_even m) \<le> m + 1 / 2"
    by linarith
  from q f show "m - 1 / 2 \<le> of_int (round_half_even m)"
    by linarith
qed

lemma rhe_int [simp]: "round_half_even (of_int k) = k"
  by (simp add: round_half_even_def)

lemma rhe_mono:
  assumes "a \<le> b"
  shows "round_half_even a \<le> round_half_even b"
proof (cases "\<lfloor>a\<rfloor> = \<lfloor>b\<rfloor>")
  case True
  then show ?thesis using assms
    by (auto simp: round_half_even_def Let_def)
next
  case False
  then have "\<lfloor>a\<rfloor> + 1 \<le> \<lfloor>b\<rfloor>"
    using floor_mono [OF assms] by simp
  moreover have "round_half_even a \<le> \<lfloor>a\<rfloor> + 1"
    by (simp add: round_half_even_def Let_def)
  moreover have "\<lfloor>b\<rfloor> \<le> round_half_even b"
    by (simp add: round_half_even_def Let_def)
  ultimately show ?thesis by linarith
qed

lemma fl_pos_eq:
  assumes "0 < x"
  shows "fl x = of_int (round_half_even (x / 2 powi (ilog2 x - 52))) * 2 powi (ilog2 x - 52)"
  using assms by (simp add: fl_def Let_def)

lemma ulp_le:
  assumes "0 < x"
  shows "2 powi (ilog2 x - 52) \<le> x / 2 ^ 52"
proof -
  have "(2::rat) powi (ilog2 x - 52) = 2 powi (ilog2 x) / 2 powi 52"
    by (rule power_int_diff) simp
  also have "\<dots> = 2 powi (ilog2 x) / 2 ^ 52" by simp
  also have "\<dots> \<le> x / 2 ^ 52"
    using ilog2_bounds [OF assms] by (simp add: divide_right_mono)
  finally show ?thesis .
qed

lemma fl_error:
  assumes "0 < x"
  shows "\<bar>fl x - x\<bar> \<le> x / 2 ^ 53"
proof -
  define u :: rat where "u = 2 powi (ilog2 x - 52)"
  have up: "0 < u" by (simp add: u_def zero_less_power_int)
  define r where "r = round_half_even (x / u)"
  have "\<bar>of_int r - x / u\<bar> \<le> 1 / 2"
    using rhe_bounds [of "x / u"] unfolding r_def by linarith
  then have "\<bar>of_int r - x / u\<bar> * u \<le> 1 / 2 * u"
    using up by (simp add: mult_right_mono)
  moreover have "\<bar>of_int r - x / u\<bar> * u = \<bar>of_int r * u - x\<bar>"
  proof -
    have "\<bar>of_int r - x / u\<bar> * u = \<bar>(of_int r - x / u) * u\<bar>"
      using up by (simp add: abs_mult_pos)
    also have "(of_int r - x / u) * u = of_int r * u - x"
      using up by (simp add: field_simps)
    finally show ?thesis .
  qed
  ultimately have "\<bar>of_int r * u - x\<bar> \<le> u / 2" by simp
  also have "\<dots> \<le> (x / 2 ^ 52) / 2"
    using ulp_le [OF assms] by (simp add: u_def)
  finally show ?thesis
    using assms by (simp add: fl_pos_eq u_def r_def)
qed

lemma mantissa_bounds:
  assumes "0 < x"
  shows "2 ^ 52 \<le> x / 2 powi (ilog2 x - 52)" "x / 2 powi (ilog2 x - 52) < 2 ^ 53"
proof -
  have u: "(2::rat) powi (ilog2 x - 52) = 2 powi (ilog2 x) / 2 ^ 52"
    using power_int_diff [of "2::rat" "ilog2 x" 52] by simp
  have p: "(0::rat) < 2 powi (ilog2 x)" by (simp add: zero_less_power_int)
  have b: "2 powi (ilog2 x) \<le> x" "x < 2 powi (ilog2 x + 1)"
    using ilog2_bounds [OF assms] by simp_all
  have t: "(2::rat) powi (ilog2 x + 1) = 2 * 2 powi (ilog2 x)"
    by (rule power_int_add_1') simp
  show "2 ^ 52 \<le> x / 2 powi (ilog2 x - 52)"
    using b(1) p by (simp add: u field_simps)
  have x2: "x < 2 * 2 powi (ilog2 x)"
    using b(2) unfolding t .
  show "x / 2 powi (ilog2 x - 52) < 2 ^ 53"
    using x2 p by (simp add: u field_simps)
qed

lemma fl_binade:
  assumes "0 < x"
  shows "2 powi (ilog2 x) \<le> fl x" "fl x \<le> 2 powi (ilog2 x + 1)"
proof -
  define u :: rat where "u = 2 powi (ilog2 x - 52)"
  have up: "0 < u" by (simp add: u_def zero_less_power_int)
  have e: "(2::rat) powi (ilog2 x) = 2 ^ 52 * u"
    using power_int_diff [of "2::rat" "ilog2 x" 52] by (simp add: u_def)
  have t: "(2::rat) powi (ilog2 x + 1) = 2 * 2 powi (ilog2 x)"
    by (rule power_int_add_1') simp
  have "round_half_even (of_int (2 ^ 52)) \<le> round_half_even (x / u)"
    using mantissa_bounds(1) [OF assms] by (intro rhe_mono) (simp add: u_def)
  then have "(2 ^ 52 :: int) \<le> round_half_even (x / u)"
    by (simp only: rhe_int)
  then have "(of_int (2 ^ 52) :: rat) \<le> of_int (round_half_even (x / u))"
    by (simp only: of_int_le_iff)
  then have "2 ^ 52 * u \<le> of_int (round_half_even (x / u)) * u"
    using up by (simp add: mult_right_mono)
  then show "2 powi (ilog2 x) \<le> fl x"
    using assms by (simp add: fl_pos_eq e u_def)
  have "round_half_even (x / u) \<le> round_half_even (of_int (2 ^ 53))"
    using mantissa_bounds(2) [OF assms] by (intro rhe_mono) (simp add: u_def)
  then have "round_half_even (x / u) \<le> (2 ^ 53 :: int)"
    by (simp only: rhe_int)
  then have "(of_int (round_half_even (x / u)) :: rat) \<le> of_int (2 ^ 53)"
    by (simp only: of_int_le_iff)
  then have "of_int (round_half_even (x / u)) * u \<le> 2 ^ 53 * u"
    using up by (simp add: mult_right_mono)
  then have "fl x \<le> 2 * 2 powi (ilog2 x)"
    using assms by (simp add: fl_pos_eq e u_def)
  then show "fl x \<le> 2 powi (ilog2 x + 1)"
    unfolding t .
qed

lemma fl_pos:
  assumes "0 < x"
  shows "0 < fl x"
proof -
  have "(0::rat) < 2 powi (ilog2 x)" by (simp add: zero_less_power_int)
  with fl_binade(1) [OF assms] show ?thesis by linarith
qed

lemma fl_mono:
  assumes "0 < x" and "x \<le> y"
  shows "fl x \<le> fl y"
proof (cases "ilog2 x = ilog2 y")
  case True
  have y: "0 < y" using assms by simp
  define u :: rat where "u = 2 powi (ilog2 x - 52)"
  have up: "0 < u" by (simp add: u_def zero_less_power_int)
  have "x / u \<le> y / u" using assms(2) up by (simp add: divide_right_mono)
  then have "round_half_even (x / u) \<le> round_half_even (y / u)" by (rule rhe_mono)
  then have "(of_int (round_half_even (x / u)) :: rat) \<le> of_int (round_half_even (y / u))"
    by (simp only: of_int_le_iff)
  then have "of_int (round_half_even (x / u)) * u \<le> of_int (round_half_even (y / u)) * u"
    using up by (simp add: mult_right_mono)
  then show ?thesis
    using assms(1) y True by (simp add: fl_pos_eq u_def)
next
  case False
  have y: "0 < y" using assms by simp
  from False ilog2_mono [OF assms] have "ilog2 x + 1 \<le> ilog2 y" by simp
  then have "(2::rat) powi (ilog2 x + 1) \<le> 2 powi (ilog2 y)"
    by (rule power_int_increasing) simp
  with fl_binade(2) [OF assms(1)] fl_binade(1) [OF y] show ?thesis by simp
qed

lemma fl_exact:
  assumes "0 < x" and "x = of_int k * 2 powi (ilog2 x - 52)"
  shows "fl x = x"
proof -
  have "(0::rat) < 2 powi (ilog2 x - 52)" by (simp add: zero_less_power_int)
  then have "x / 2 powi (ilog2 x - 52) = of_int k"
    using assms(2) by (simp add: field_simps)
  then show ?thesis
    using assms by (simp add: fl_pos_eq)
qed

lemma fl_nat:
  assumes "n < 2 ^ 53"
  shows "fl (of_nat n) = of_nat n"
proof (cases "n = 0")
  case True
  then show ?thesis by (simp add: fl_def)
next
  case False
  define x :: rat where "x = of_nat n"
  have xp: "0 < x" using False by (simp add: x_def)
  have "2 powi (ilog2 x) \<le> x" using ilog2_bounds [OF xp] by simp
  also have "x < 2 ^ 53" using assms unfolding x_def
    by (metis of_nat_less_iff of_nat_numeral of_nat_power)
  also have "(2::rat) ^ 53 = 2 powi 53" by simp
  finally have "ilog2 x < 53"
    using power_int_increasing [of 53 "ilog2 x" "2::rat"] by (cases "ilog2 x < 53") auto
  then have le: "0 \<le> 52 - ilog2 x" by simp
  have "(2::rat) powi (ilog2 x - 52) = 1 / 2 powi (52 - ilog2 x)"
    using power_int_minus_divide [of "2::rat" "52 - ilog2 x"] by simp
  also have "\<dots> = 1 / 2 ^ nat (52 - ilog2 x)"
    using le by (simp add: power_int_def)
  finally have u: "(2::rat) powi (ilog2 x - 52) = 1 / 2 ^ nat (52 - ilog2 x)" .
  have "x = of_int (int n * 2 ^ nat (52 - ilog2 x)) * 2 powi (ilog2 x - 52)"
    unfolding u by (simp add: x_def)
  from fl_exact [OF xp this] show ?thesis by (simp add: x_def)
qed

lemma fl_one [simp]: "fl 1 = 1"
  using fl_nat [of 1] by simp

subsection \<open>Scaling the logo\<close>

lemma quot_def:
  "jdiv maxLogoDim (Fin (of_nat n)) = (if n = 0 then PosInf else Fin (fl (400 / of_nat n)))"
  by (simp add: maxLogoDim_def)

lemma quot_ge_1:
  assumes "0 < n" and "n \<le> 400"
  shows "1 \<le> fl (400 / of_nat n)"
proof -
  have "(1::rat) \<le> 400 / of_nat n" using assms by (simp add: field_simps)
  from fl_mono [OF _ this] show ?thesis by simp
qed

lemma quot_lt_1:
  assumes "400 < n"
  shows "fl (400 / of_nat n) < 1" and "0 < fl (400 / of_nat n)"
proof -
  have n: "(401::rat) \<le> of_nat n" using assms
    by (metis Suc_leI of_nat_le_iff of_nat_numeral eval_nat_numeral(3) numeral_plus_one semiring_norm(5) Suc_eq_plus1 numeral_eq_Suc)
  have p: "(0::rat) < 400 / of_nat n" using assms by simp
  have "(400::rat) / of_nat n \<le> 400 / 401" using n by (simp add: field_simps)
  from fl_mono [OF p this] have "fl (400 / of_nat n) \<le> fl (400 / 401)" .
  also have "fl (400 / 401) < 1" by code_simp
  finally show "fl (400 / of_nat n) < 1" .
  show "0 < fl (400 / of_nat n)" using p by (rule fl_pos)
qed

lemma quot_antimono:
  assumes "0 < m" and "m \<le> n"
  shows "fl (400 / of_nat n) \<le> fl (400 / of_nat m)"
proof -
  have "(400::rat) / of_nat n \<le> 400 / of_nat m"
    using assms by (simp add: field_simps)
  moreover have "(0::rat) < 400 / of_nat n" using assms by simp
  ultimately show ?thesis by (rule fl_mono [rotated])
qed

lemma ratio_small:
  assumes "width d \<le> 400" and "height d \<le> 400"
  shows "scaleRatio d = Fin 1"
  using assms quot_ge_1 [of "width d"] quot_ge_1 [of "height d"]
  by (auto simp: scaleRatio_def quot_def jmin3_def jmin_def)

lemma scale_small:
  assumes "width d \<le> 400" and "height d \<le> 400"
  shows "scaleToFit d = \<lparr>width = Fin (of_nat (width d)), height = Fin (of_nat (height d))\<rparr>"
proof -
  have "fl (of_nat (width d)) = of_nat (width d)" "fl (of_nat (height d)) = of_nat (height d)"
    using assms by (simp_all add: fl_nat)
  then show ?thesis by (simp add: scaleToFit_def ratio_small [OF assms])
qed

lemma ratio_large:
  assumes "400 < max (width d) (height d)"
  shows "scaleRatio d = Fin (fl (400 / of_nat (max (width d) (height d))))"
proof (cases "height d \<le> width d")
  case True
  then have w: "400 < width d" and m: "max (width d) (height d) = width d" using assms by simp_all
  show ?thesis
    using w quot_lt_1 [OF w] quot_antimono [OF _ True] by (auto simp: scaleRatio_def quot_def jmin3_def jmin_def m)
next
  case False
  then have h: "400 < height d" and m: "max (width d) (height d) = height d"
    and le: "width d \<le> height d" using assms by simp_all
  show ?thesis
    using h quot_lt_1 [OF h] quot_antimono [OF _ le] by (auto simp: scaleRatio_def quot_def jmin3_def jmin_def m)
qed


lemma fl_mono0:
  assumes "0 \<le> x" and "x \<le> y"
  shows "fl x \<le> fl y"
proof (cases "x = 0")
  case True
  show ?thesis
  proof (cases "y = 0")
    case True
    with \<open>x = 0\<close> show ?thesis by simp
  next
    case False
    with assms True have "0 < y" by simp
    from fl_pos [OF this] True show ?thesis by (simp add: fl_def)
  qed
next
  case False
  with assms have "0 < x" by simp
  from fl_mono [OF this assms(2)] show ?thesis .
qed

lemma ratio_finite: "\<exists>r. scaleRatio d = Fin r \<and> 0 < r \<and> r \<le> 1"
proof (cases "400 < max (width d) (height d)")
  case True
  then have "400 < max (width d) (height d)" .
  from quot_lt_1 [OF this] ratio_large [OF True] show ?thesis by auto
next
  case False
  then have "width d \<le> 400" "height d \<le> 400" by simp_all
  from ratio_small [OF this] show ?thesis by simp
qed

lemma scale_large:
  assumes "400 < max (width d) (height d)"
  shows "scaleToFit d =
     \<lparr>width = Fin (fl (of_nat (width d) * fl (400 / of_nat (max (width d) (height d))))),
      height = Fin (fl (of_nat (height d) * fl (400 / of_nat (max (width d) (height d)))))\<rparr>"
  by (simp add: scaleToFit_def ratio_large [OF assms])

lemma larger_scaled:
  assumes "400 < max (width d) (height d)"
  shows "jmax (width (scaleToFit d)) (height (scaleToFit d))
         = Fin (fl (of_nat (max (width d) (height d)) * fl (400 / of_nat (max (width d) (height d)))))"
proof -
  define r where "r = fl (400 / of_nat (max (width d) (height d)))"
  have rp: "0 < r" unfolding r_def using quot_lt_1(2) [OF assms] .
  have mono: "fl (of_nat a * r) \<le> fl (of_nat b * r)" if "a \<le> b" for a b :: nat
    using that rp by (intro fl_mono0) (simp_all add: mult_right_mono)
  show ?thesis
  proof (cases "width d \<le> height d")
    case True
    then have "max (width d) (height d) = height d" by simp
    with mono [OF True] show ?thesis
      by (simp add: scale_large [OF assms] jmax_def r_def)
  next
    case False
    then have le: "height d \<le> width d" and m: "max (width d) (height d) = width d" by simp_all
    from mono [OF le] show ?thesis
      by (auto simp: scale_large [OF assms] jmax_def r_def m)
  qed
qed

lemma near_400:
  assumes "400 < (n::nat)"
  shows "\<bar>fl (of_nat n * fl (400 / of_nat n)) - 400\<bar> \<le> 400 * (2 / 2 ^ 53 + 1 / 2 ^ 106)"
proof -
  define q :: rat where "q = 400 / of_nat n"
  define r where "r = fl q"
  define eps :: rat where "eps = 1 / 2 ^ 53"
  have np: "(0::rat) < of_nat n" using assms by simp
  have qp: "0 < q" using assms by (simp add: q_def)
  have rp: "0 < r" unfolding r_def using qp by (rule fl_pos)
  have nq: "of_nat n * q = 400" using assms by (simp add: q_def)
  have "\<bar>r - q\<bar> \<le> q * eps" using fl_error [OF qp] by (simp add: r_def eps_def)
  then have "of_nat n * \<bar>r - q\<bar> \<le> of_nat n * (q * eps)"
    using np by (simp add: mult_left_mono)
  moreover have "of_nat n * \<bar>r - q\<bar> = \<bar>of_nat n * r - 400\<bar>"
  proof -
    have "of_nat n * \<bar>r - q\<bar> = \<bar>(r - q) * of_nat n\<bar>"
      using np by (simp add: abs_mult)
    also have "(r - q) * of_nat n = of_nat n * r - 400"
      using nq by (simp add: algebra_simps)
    finally show ?thesis .
  qed
  ultimately have e1: "\<bar>of_nat n * r - 400\<bar> \<le> 400 * eps"
    using nq by (simp add: mult.assoc [symmetric])
  have zp: "0 < of_nat n * r" using np rp by simp
  have e2: "\<bar>fl (of_nat n * r) - of_nat n * r\<bar> \<le> (of_nat n * r) * eps"
    using fl_error [OF zp] by (simp add: eps_def)
  have "of_nat n * r \<le> 400 + 400 * eps" using e1 by linarith
  moreover have "0 \<le> eps" by (simp add: eps_def)
  ultimately have "(of_nat n * r) * eps \<le> (400 + 400 * eps) * eps"
    by (rule mult_right_mono)
  with e1 e2 have "\<bar>fl (of_nat n * r) - 400\<bar> \<le> 400 * eps + (400 + 400 * eps) * eps"
    by linarith
  also have "\<dots> = 400 * (2 / 2 ^ 53 + 1 / 2 ^ 106)"
    by (simp add: eps_def algebra_simps power2_eq_square [symmetric] flip: power_add power_mult_distrib)
  finally show ?thesis by (simp add: r_def q_def)
qed

lemma textOnly_resolves:
  assumes "logoOf design = Some l" and "imageSize e l = Some d"
  shows "\<exists>doc. generateTextOnlySvg e design False = Inr doc"
  using assms
  by (simp add: generateTextOnlySvg_def getLogoDimensions_def fontStyleDefOf_def Let_def)

lemma combined_resolves:
  assumes "logoOf design = Some l" and "imageSize e l = Some d"
  shows "\<exists>doc. generateCombinedSvg e design = Inr doc"
  using assms
  by (simp add: generateCombinedSvg_def getLogoDimensions_def Let_def)

lemma engraving_resolves:
  assumes "logoOf design = Some l" and "imageSize e l = Some d"
  shows "\<exists>doc. generateEngravingSvg e design = Inr doc"
  using engraving_shape [OF assms] by blast

text \<open>
  C5, amended. A box of at most 400 by 400 (a zero side included) is returned unchanged, with
  ratio 1. When a side exceeds 400 the ratio is the double nearest to 400 divided by the
  larger side, below 1, and the larger side of the scaled box is 400 up to rounding: it is
  the double nearest to that side times the ratio, within \<open>400 * (2 / 2 ^ 53 + 1 / 2 ^ 106)\<close>
  of 400; each scaled side is within a relative error of \<open>1 / 2 ^ 53\<close> of the side times the
  ratio. In all cases the scaled box is the sides times
  \<open>ratio = Math.min(400 / width, 400 / height, 1)\<close>, in double arithmetic.
\<close>

theorem scaling_fits_400:
  "(width d \<le> 400 \<and> height d \<le> 400 \<longrightarrow>
      scaleRatio d = Fin 1
      \<and> scaleToFit d = \<lparr>width = Fin (of_nat (width d)), height = Fin (of_nat (height d))\<rparr>)
   \<and> (400 < width d \<or> 400 < height d \<longrightarrow>
        (\<exists>r larger sw sh.
           r = fl (400 / of_nat (max (width d) (height d))) \<and> 0 < r \<and> r < 1
           \<and> scaleRatio d = Fin r
           \<and> scaleToFit d = \<lparr>width = Fin sw, height = Fin sh\<rparr>
           \<and> \<bar>sw - of_nat (width d) * r\<bar> \<le> of_nat (width d) * r / 2 ^ 53
           \<and> \<bar>sh - of_nat (height d) * r\<bar> \<le> of_nat (height d) * r / 2 ^ 53
           \<and> jmax (Fin sw) (Fin sh) = Fin larger
           \<and> \<bar>larger - 400\<bar> \<le> 400 * (2 / 2 ^ 53 + 1 / 2 ^ 106)))
   \<and> scaleRatio d = jmin3 (jdiv (Fin 400) (Fin (of_nat (width d))))
                           (jdiv (Fin 400) (Fin (of_nat (height d)))) (Fin 1)
   \<and> scaleToFit d = \<lparr>width = jmul (Fin (of_nat (width d))) (scaleRatio d),
                      height = jmul (Fin (of_nat (height d))) (scaleRatio d)\<rparr>"
proof -
  have small: "scaleRatio d = Fin 1
      \<and> scaleToFit d = \<lparr>width = Fin (of_nat (width d)), height = Fin (of_nat (height d))\<rparr>"
    if "width d \<le> 400 \<and> height d \<le> 400"
    using that ratio_small [of d] scale_small [of d] by simp
  have large: "\<exists>r larger sw sh.
           r = fl (400 / of_nat (max (width d) (height d))) \<and> 0 < r \<and> r < 1
           \<and> scaleRatio d = Fin r
           \<and> scaleToFit d = \<lparr>width = Fin sw, height = Fin sh\<rparr>
           \<and> \<bar>sw - of_nat (width d) * r\<bar> \<le> of_nat (width d) * r / 2 ^ 53
           \<and> \<bar>sh - of_nat (height d) * r\<bar> \<le> of_nat (height d) * r / 2 ^ 53
           \<and> jmax (Fin sw) (Fin sh) = Fin larger
           \<and> \<bar>larger - 400\<bar> \<le> 400 * (2 / 2 ^ 53 + 1 / 2 ^ 106)"
    if "400 < width d \<or> 400 < height d"
  proof -
    from that have m: "400 < max (width d) (height d)" by auto
    define r where "r = fl (400 / of_nat (max (width d) (height d)))"
    have rp: "0 < r" "r < 1" unfolding r_def using quot_lt_1 [OF m] by simp_all
    have err: "\<bar>fl (of_nat n * r) - of_nat n * r\<bar> \<le> of_nat n * r / 2 ^ 53" for n :: nat
    proof (cases "n = 0")
      case True
      then show ?thesis by (simp add: fl_def)
    next
      case False
      then have "0 < of_nat n * r" using rp by simp
      from fl_error [OF this] show ?thesis .
    qed
    have s: "scaleToFit d = \<lparr>width = Fin (fl (of_nat (width d) * r)),
                             height = Fin (fl (of_nat (height d) * r))\<rparr>"
      using scale_large [OF m] by (simp add: r_def)
    have l: "jmax (Fin (fl (of_nat (width d) * r))) (Fin (fl (of_nat (height d) * r)))
             = Fin (fl (of_nat (max (width d) (height d)) * r))"
      using larger_scaled [OF m] by (simp add: s r_def)
    have n: "\<bar>fl (of_nat (max (width d) (height d)) * r) - 400\<bar>
             \<le> 400 * (2 / 2 ^ 53 + 1 / 2 ^ 106)"
      using near_400 [OF m] by (simp add: r_def)
    from rp ratio_large [OF m] s err [of "width d"] err [of "height d"] l n
    show ?thesis unfolding r_def by blast
  qed
  have def1: "scaleRatio d = jmin3 (jdiv (Fin 400) (Fin (of_nat (width d))))
                           (jdiv (Fin 400) (Fin (of_nat (height d)))) (Fin 1)"
    by (simp only: scaleRatio_def maxLogoDim_def)
  have def2: "scaleToFit d = \<lparr>width = jmul (Fin (of_nat (width d))) (scaleRatio d),
                      height = jmul (Fin (of_nat (height d))) (scaleRatio d)\<rparr>"
    by (simp only: scaleToFit_def Let_def)
  from small large def1 def2 show ?thesis by blast
qed

theorem scaling_fits_400_witness:
  "width \<lparr>width = 100, height = 200 :: nat\<rparr> \<le> 400 \<and> height \<lparr>width = 100, height = 200 :: nat\<rparr> \<le> 400
   \<and> scaleToFit \<lparr>width = 100, height = 200\<rparr> = \<lparr>width = Fin 100, height = Fin 200\<rparr>
   \<and> 400 < width \<lparr>width = 530, height = 300 :: nat\<rparr>
   \<and> (\<exists>r. scaleRatio \<lparr>width = 530, height = 300\<rparr> = Fin r \<and> 0 < r \<and> r < 1)"
proof -
  have a: "width \<lparr>width = 100, height = 200 :: nat\<rparr> \<le> 400 \<and> height \<lparr>width = 100, height = 200 :: nat\<rparr> \<le> 400"
    by simp
  have b: "400 < width \<lparr>width = 530, height = 300 :: nat\<rparr>" by simp
  from a scaling_fits_400 [of "\<lparr>width = 100, height = 200\<rparr>"]
  have 1: "scaleToFit \<lparr>width = 100, height = 200\<rparr> = \<lparr>width = Fin 100, height = Fin 200\<rparr>"
    by simp
  from b scaling_fits_400 [of "\<lparr>width = 530, height = 300\<rparr>"]
  have 2: "\<exists>r. scaleRatio \<lparr>width = 530, height = 300\<rparr> = Fin r \<and> 0 < r \<and> r < 1"
    by blast
  from a b 1 2 show ?thesis by blast
qed

text \<open>
  C5 as stated does not hold: for a logo of 530 by 530 the larger side of the scaled box is
  the double 400.00000000000006, not 400.
\<close>

theorem scaled_530_counterexample:
  "scaleToFit \<lparr>width = 530, height = 530\<rparr>
     = \<lparr>width = Fin (7036874417766401 / 17592186044416),
        height = Fin (7036874417766401 / 17592186044416)\<rparr>
   \<and> (7036874417766401 / 17592186044416 :: rat) \<noteq> 400"
proof -
  have q: "jdiv maxLogoDim (Fin 530) = Fin (3398943114996601 / 4503599627370496)"
    by code_simp
  have m: "fl (900719925474099265 / 2251799813685248) = 7036874417766401 / 17592186044416"
    by code_simp
  show ?thesis
    by (simp add: scaleToFit_def scaleRatio_def jmin3_def jmin_def q m)
qed

text \<open>
  C3, amended. For a logo whose width or height is 0 nothing is rejected: 400 / 0 is
  Infinity, \<open>Math.min\<close> with 1 discards it, the ratio is a finite number above 0 and at most
  1, the scaled box has finite sides and its zero side stays 0, and the three documents are
  produced.
\<close>

theorem zero_dimension_no_geometry_error:
  assumes "width d = 0 \<or> height d = 0"
  shows "jdiv maxLogoDim (Fin 0) = PosInf
    \<and> (\<exists>r. scaleRatio d = Fin r \<and> 0 < r \<and> r \<le> 1)
    \<and> (\<exists>sw sh. scaleToFit d = \<lparr>width = Fin sw, height = Fin sh\<rparr>
          \<and> (width d = 0 \<longrightarrow> sw = 0) \<and> (height d = 0 \<longrightarrow> sh = 0))
    \<and> (logoOf design = Some l \<and> imageSize e l = Some d \<longrightarrow>
          (\<exists>doc. generateTextOnlySvg e design False = Inr doc)
          \<and> (\<exists>doc. generateCombinedSvg e design = Inr doc)
          \<and> (\<exists>doc. generateEngravingSvg e design = Inr doc))"
proof -
  obtain r where r: "scaleRatio d = Fin r" "0 < r" "r \<le> 1"
    using ratio_finite [of d] by blast
  have s: "scaleToFit d = \<lparr>width = Fin (fl (of_nat (width d) * r)),
                           height = Fin (fl (of_nat (height d) * r))\<rparr>"
    by (simp add: scaleToFit_def r(1))
  have z: "fl (of_nat n * r) = 0" if "n = 0" for n :: nat
    using that by (simp add: fl_def)
  from r s z textOnly_resolves [of design l e d] combined_resolves [of design l e d]
    engraving_resolves [of design l e d]
  show ?thesis by (auto simp: maxLogoDim_def)
qed

theorem zero_dimension_no_geometry_error_witness:
  "(width \<lparr>width = 0, height = 200 :: nat\<rparr> = 0 \<or> height \<lparr>width = 0, height = 200 :: nat\<rparr> = 0)
   \<and> logoOf design0 = Some ''L''
   \<and> imageSize envZeroWidth ''L'' = Some \<lparr>width = 0, height = 200\<rparr>
   \<and> (\<exists>doc. generateCombinedSvg envZeroWidth design0 = Inr doc)"
proof -
  have a: "width \<lparr>width = 0, height = 200 :: nat\<rparr> = 0 \<or> height \<lparr>width = 0, height = 200 :: nat\<rparr> = 0"
    by simp
  have b: "logoOf design0 = Some ''L''" by (simp add: logoOf_def design0_def)
  have c: "imageSize envZeroWidth ''L'' = Some \<lparr>width = 0, height = 200\<rparr>"
    by (simp add: envZeroWidth_def)
  from zero_dimension_no_geometry_error [OF a, of design0 "''L''" envZeroWidth] b c
  have "\<exists>doc. generateCombinedSvg envZeroWidth design0 = Inr doc" by blast
  with a b c show ?thesis by blast
qed

text \<open>
  C3 as stated does not hold: a logo of width 0 and height 200 is scaled to the box 0 by 200
  and each of the three operations returns a document.
\<close>

theorem zero_width_accepted_counterexample:
  "scaleToFit \<lparr>width = 0, height = 200\<rparr> = \<lparr>width = Fin 0, height = Fin 200\<rparr>
   \<and> \<not> isl (generateTextOnlySvg envZeroWidth design0 False)
   \<and> \<not> isl (generateCombinedSvg envZeroWidth design0)
   \<and> \<not> isl (generateEngravingSvg envZeroWidth design0)"
proof -
  have b: "logoOf design0 = Some ''L''" by (simp add: logoOf_def design0_def)
  have c: "imageSize envZeroWidth ''L'' = Some \<lparr>width = 0, height = 200\<rparr>"
    by (simp add: envZeroWidth_def)
  have s: "scaleToFit \<lparr>width = 0, height = 200\<rparr> = \<lparr>width = Fin 0, height = Fin 200\<rparr>"
    using scale_small [of "\<lparr>width = 0, height = 200\<rparr>"] by simp
  from s textOnly_resolves [OF b c] combined_resolves [OF b c] engraving_resolves [OF b c]
  show ?thesis by auto
qed

subsection \<open>Ids and references\<close>

lemma refsum_Nil [simp]: "refsum [] = ([], [], [])"
  by (simp add: refsum_def)

lemma refsum_Cons [simp]:
  "refsum ((n, v) # as) =
     tadd (if n = ''id'' then [v] else [],
           if n = ''href'' \<and> startsWith ''#'' v then [drop 1 v] else [],
           if (n = ''fill'' \<or> n = ''filter'' \<or> n = ''stroke'') \<and> startsWith ''url(#'' v
              \<and> last v = CHR '')'' then [butlast (drop 5 v)] else [])
          (refsum as)"
  by (auto simp: refsum_def)

lemma tadd_empty [simp]: "tadd ([], [], []) x = x"
  by (cases x) simp

lemma tadd_empty_right [simp]: "tadd x ([], [], []) = x"
  by (cases x) simp

lemma tadd_assoc [simp]: "tadd (a, b, c) (tadd (a', b', c') z) = tadd (a @ a', b @ b', c @ c') z"
  by (cases z) simp

lemma scan_content_skip:
  "CHR ''<'' \<notin> set seg \<Longrightarrow> scan Content (seg @ rest) = scan Content rest"
  by (induction seg) auto

lemma scan_dq_skip:
  "CHR 0x22 \<notin> set seg \<Longrightarrow> scan (InDQ w v) (seg @ rest) = scan (InDQ w (v @ seg)) rest"
  by (induction seg arbitrary: v) auto

lemma styleDefs_refsum:
  assumes "CHR 0x22 \<notin> set tc" and "CHR 0x22 \<notin> set gs" and "CHR 0x22 \<notin> set ge"
    and "CHR 0x22 \<notin> set ns"
  shows "refsum (scan Content (getTextStyleDefs s tc gs ge ns @ rest))
         = tadd (styleIds s ns, [], []) (refsum (scan Content rest))"
  using assms by (cases s) (simp_all add: scan_dq_skip is_space_def)


lemma props_refsum:
  assumes "CHR 0x22 \<notin> set (textColor design)" and "fonts_free CHR 0x22 e"
    and "\<not> startsWith ''url(#'' (textColor design)"
  shows "refsum (scan (InTag []) (commonTextProps e design @ rest))
         = tadd ([], [], styleIds (textStyle design) ''text-element'') (refsum (scan (InTag []) rest))"
proof -
  have f: "CHR 0x22 \<notin> set (fontNameOf e (font design))"
    using assms(2) by (rule fontNameOf_free) simp
  show ?thesis
    using assms(1,3) f
    by (cases "textStyle design") (simp_all add: commonTextProps_def scan_dq_skip is_space_def)
qed

lemma stacked_refsum:
  assumes p: "\<And>rest. refsum (scan (InTag []) (props @ rest)) = tadd ([], [], S) (refsum (scan (InTag []) rest))"
    and n: "num_free CHR 0x22 e"
  shows \<open>refsum (scan Content
           (concat (map (\<lambda>(i, word).
                ''<text x="'' @ num e cx @ ''" y="''
                  @ num e (jadd base (jmul (Fin (of_nat i)) (Fin 60)))
                  @ ''" text-anchor="middle" '' @ props @ ''>'' @ escapeXml word @ ''</text>'') xs)
            @ rest))
         = tadd ([], [], concat (replicate (length xs) S)) (refsum (scan Content rest))\<close>
proof (induction xs)
  case Nil
  show ?case by simp
next
  case (Cons x xs)
  obtain i word where x: "x = (i, word)" by (cases x)
  have w: "CHR ''<'' \<notin> set (escapeXml word)" by (simp add: escapeXml_free)
  show ?case
    using Cons num_free_num [OF n] w
    by (simp add: x p scan_dq_skip scan_content_skip is_space_def)
qed

lemma concat_replicate_2: "concat (replicate 2 S) = S @ S"
  by (simp add: numeral_2_eq_2)

lemma textElements_refsum:
  assumes "CHR 0x22 \<notin> set (textColor design)" and "fonts_free CHR 0x22 e"
    and "\<not> startsWith ''url(#'' (textColor design)" and "num_free CHR 0x22 e"
  shows "refsum (scan Content (getTextElements e design sl c @ rest))
         = tadd (pathIds (style design), pathIds (style design),
                 concat (replicate (textCount (style design) (text' design))
                           (styleIds (textStyle design) ''text-element'')))
             (refsum (scan Content rest))"
proof -
  note p = props_refsum [OF assms(1-3)]
  note n = num_free_num [OF assms(4)]
  have x: "CHR ''<'' \<notin> set (escapeXml t)" for t by (simp add: escapeXml_free)
  show ?thesis
  proof (cases "style design")
    case StackedText
    then show ?thesis
      using stacked_refsum [of "commonTextProps e design", OF p assms(4)]
      by (simp add: getTextElements_def Let_def textCount_def)
  qed (use n x in \<open>simp_all add: getTextElements_def arcMarkup_def fullCircleMarkup_def
      splitMarkup_def Let_def textCount_def p scan_dq_skip scan_content_skip is_space_def
      concat_replicate_2\<close>)
qed

lemma combined_doc:
  assumes "logoOf design = Some l" and "imageSize e l = Some dims"
  shows \<open>generateCombinedSvg e design =
     Inr (svgOpenXlink e @ ''    ''
          @ importStyle (replace_all_char CHR ''&'' ''&amp;'' (fontUrlOf (fontNameOf e (font design))))
          @ ''\<newline>    ''
          @ getTextStyleDefs (textStyle design) (textColor design) (gradientStartColor design)
              (gradientEndColor design) ''design-element''
          @ ''\<newline>  </defs>\<newline>  '' @ imageAttrs e l (scaleToFit dims) viewCenter
          @ ''  />\<newline>  ''
          @ (if blank (text' design) then []
             else getTextElements e design (scaleToFit dims) viewCenter)
          @ ''\<newline></svg>'')\<close>
proof -
  have "trim (text' design) = [] \<longleftrightarrow> blank (text' design)"
    using trim_blank trim_empty_blank by blast
  then show ?thesis
    using assms by (simp add: generateCombinedSvg_def getLogoDimensions_def Let_def)
qed

lemma textOnly_refsum:
  assumes "logoOf design = Some l" and "imageSize e l = Some dims" and "\<not> blank (text' design)"
    and "CHR 0x22 \<notin> set (textColor design)" and "CHR 0x22 \<notin> set (gradientStartColor design)"
    and "CHR 0x22 \<notin> set (gradientEndColor design)"
    and "\<not> startsWith ''url(#'' (textColor design)"
    and "fonts_free CHR 0x22 e" and "fonts_free CHR ''<'' e" and "num_free CHR 0x22 e"
  shows "\<exists>doc. generateTextOnlySvg e design False = Inr doc
     \<and> refsum (scan Content doc)
         = (styleIds (textStyle design) ''text-element'' @ pathIds (style design),
            pathIds (style design),
            concat (replicate (textCount (style design) (text' design))
                      (styleIds (textStyle design) ''text-element'')))"
proof -
  note u = fontUrl_free [OF assms(9), of "font design"]
  note d = styleDefs_refsum [OF assms(4,5,6), of "''text-element''", simplified]
  note t = textElements_refsum [OF assms(4) assms(8) assms(7) assms(10)]
  show ?thesis
    using u
    by (simp add: textOnly_link [OF assms(1,3,2)] importStyle_def scan_content_skip d t is_space_def)
qed

lemma combined_refsum:
  assumes "logoOf design = Some l" and "imageSize e l = Some dims"
    and "CHR 0x22 \<notin> set (textColor design)" and "CHR 0x22 \<notin> set (gradientStartColor design)"
    and "CHR 0x22 \<notin> set (gradientEndColor design)"
    and "\<not> startsWith ''url(#'' (textColor design)"
    and "fonts_free CHR 0x22 e" and "fonts_free CHR ''<'' e" and "num_free CHR 0x22 e"
    and "CHR 0x22 \<notin> set l" and "\<not> startsWith ''#'' l"
  shows "\<exists>doc. generateCombinedSvg e design = Inr doc
     \<and> refsum (scan Content doc)
         = (if blank (text' design)
            then (styleIds (textStyle design) ''design-element'', [], [])
            else (styleIds (textStyle design) ''design-element'' @ pathIds (style design),
                  pathIds (style design),
                  concat (replicate (textCount (style design) (text' design))
                            (styleIds (textStyle design) ''text-element''))))"
proof -
  note u = fontUrl_free [OF assms(8), of "font design"]
  note d = styleDefs_refsum [OF assms(3,4,5), of "''design-element''", simplified]
  note t = textElements_refsum [OF assms(3) assms(7) assms(6) assms(9)]
  note n = num_free_num [OF assms(9)]
  show ?thesis
    using u n assms(10,11)
    by (simp add: combined_doc [OF assms(1,2)] svgOpenXlink_def imageAttrs_def importStyle_def
        scan_content_skip scan_dq_skip d t is_space_def Let_def)
qed

lemma styleIds_disjoint:
  "set (styleIds s ''text-element'') \<inter> set (styleIds s' ''design-element'') = {}"
  by (cases s; cases s'; simp)

lemma styleIds_pathIds_disjoint:
  "set (styleIds s ''text-element'') \<inter> set (pathIds l) = {}"
  "set (styleIds s ''design-element'') \<inter> set (pathIds l) = {}"
  by (cases s; cases l; simp)+

lemma set_concat_replicate: "set (concat (replicate k S)) \<subseteq> set S"
  by (induction k) auto

lemma refsum_parts:
  "refsum (scan Content doc) = (a, b, c) \<Longrightarrow> ids doc = a \<and> href_refs doc = b \<and> url_refs doc = c"
  by (simp add: refsum_def ids_def href_refs_def url_refs_def)

text \<open>
  What holds of the ids in general (for a logo that loads, a text that is not blank, and
  colours, font names, numbers and a logo that bring no double quote, and no reference of
  their own, into an attribute). The style resolver's def id is \<open>text-element\<close> in the
  text-only document and \<open>design-element\<close> in the combined one; the path ids are fixed per
  layout and the same in both. In the text-only document every reference of a text element
  is to an id that the document defines; in the combined document every path reference is.
\<close>

lemma ids_of_both_documents:
  assumes "logoOf design = Some l" and "imageSize e l = Some dims" and "\<not> blank (text' design)"
    and "CHR 0x22 \<notin> set (textColor design)" and "CHR 0x22 \<notin> set (gradientStartColor design)"
    and "CHR 0x22 \<notin> set (gradientEndColor design)"
    and "\<not> startsWith ''url(#'' (textColor design)"
    and "fonts_free CHR 0x22 e" and "fonts_free CHR ''<'' e" and "num_free CHR 0x22 e"
    and "CHR 0x22 \<notin> set l" and "\<not> startsWith ''#'' l"
  shows "\<exists>docT docC.
     generateTextOnlySvg e design False = Inr docT \<and> generateCombinedSvg e design = Inr docC
     \<and> ids docT = styleIds (textStyle design) ''text-element'' @ pathIds (style design)
     \<and> ids docC = styleIds (textStyle design) ''design-element'' @ pathIds (style design)
     \<and> set (ids docT) \<inter> set (ids docC) = set (pathIds (style design))
     \<and> set (url_refs docT) \<subseteq> set (ids docT)
     \<and> set (href_refs docT) \<subseteq> set (ids docT)
     \<and> set (href_refs docC) \<subseteq> set (ids docC)"
proof -
  obtain docT where t: "generateTextOnlySvg e design False = Inr docT"
    and rt: "refsum (scan Content docT)
         = (styleIds (textStyle design) ''text-element'' @ pathIds (style design),
            pathIds (style design),
            concat (replicate (textCount (style design) (text' design))
                      (styleIds (textStyle design) ''text-element'')))"
    using textOnly_refsum [OF assms(1-10)] by blast
  obtain docC where c: "generateCombinedSvg e design = Inr docC"
    and rc: "refsum (scan Content docC)
         = (styleIds (textStyle design) ''design-element'' @ pathIds (style design),
            pathIds (style design),
            concat (replicate (textCount (style design) (text' design))
                      (styleIds (textStyle design) ''text-element'')))"
    using combined_refsum [OF assms(1,2) assms(4-12)] assms(3) by auto
  note pt = refsum_parts [OF rt]
  note pc = refsum_parts [OF rc]
  have shared: "set (ids docT) \<inter> set (ids docC) = set (pathIds (style design))"
    using styleIds_disjoint [of "textStyle design" "textStyle design"]
      styleIds_pathIds_disjoint [of "textStyle design" "style design"]
    by (auto simp: pt pc)
  have urls: "set (url_refs docT) \<subseteq> set (ids docT)"
    using set_concat_replicate [of "textCount (style design) (text' design)"
        "styleIds (textStyle design) ''text-element''"]
    by (auto simp: pt)
  from t c pt pc shared urls show ?thesis by auto
qed

lemma textCount_pos: "0 < textCount l t"
  using split_ws_nonempty [of t] by (cases l) (simp_all add: textCount_def)

text \<open>
  In the combined document the text refers to the filter or gradient of its style under the
  id that \<open>getTextElements\<close> fixes, \<open>text-element\<close>, while the document defines it under
  \<open>design-element\<close>: for each of the seven styles that have a filter or a gradient, that
  reference is to an id that the combined document does not define.
\<close>

lemma combined_style_reference_dangles:
  assumes "logoOf design = Some l" and "imageSize e l = Some dims" and "\<not> blank (text' design)"
    and "CHR 0x22 \<notin> set (textColor design)" and "CHR 0x22 \<notin> set (gradientStartColor design)"
    and "CHR 0x22 \<notin> set (gradientEndColor design)"
    and "\<not> startsWith ''url(#'' (textColor design)"
    and "fonts_free CHR 0x22 e" and "fonts_free CHR ''<'' e" and "num_free CHR 0x22 e"
    and "CHR 0x22 \<notin> set l" and "\<not> startsWith ''#'' l"
    and "styleIds (textStyle design) ''text-element'' \<noteq> []"
  shows "\<exists>docC. generateCombinedSvg e design = Inr docC
     \<and> url_refs docC \<noteq> []
     \<and> set (url_refs docC) \<inter> set (ids docC) = {}"
proof -
  let ?S = "styleIds (textStyle design) ''text-element''"
  let ?k = "textCount (style design) (text' design)"
  obtain docC where c: "generateCombinedSvg e design = Inr docC"
    and rc: "refsum (scan Content docC)
         = (styleIds (textStyle design) ''design-element'' @ pathIds (style design),
            pathIds (style design), concat (replicate ?k ?S))"
    using combined_refsum [OF assms(1,2) assms(4-12)] assms(3) by auto
  note pc = refsum_parts [OF rc]
  obtain k' where k: "?k = Suc k'"
    using textCount_pos [of "style design" "text' design"] by (cases ?k) auto
  have ne: "url_refs docC \<noteq> []"
    using assms(13) by (simp add: pc k)
  have "set (url_refs docC) \<subseteq> set ?S"
    using set_concat_replicate [of ?k ?S] by (simp add: pc)
  then have "set (url_refs docC) \<inter> set (ids docC) = {}"
    using styleIds_disjoint [of "textStyle design" "textStyle design"]
      styleIds_pathIds_disjoint(1) [of "textStyle design" "style design"]
    by (auto simp: pc)
  with c ne show ?thesis by blast
qed

text \<open>
  C1, at an input where it fails: the design with the shadow style and the classic layout.
  The text-only document defines the filter \<open>shadow-text-element\<close> and its text refers to it.
  The combined document defines the filter under \<open>shadow-design-element\<close>, but its text, laid
  out by the same \<open>getTextElements\<close> with its fixed \<open>textId\<close>, refers to
  \<open>shadow-text-element\<close>, which the combined document does not define. The path id
  \<open>text-path-lower\<close>, which has no namespace, is defined in both documents.
\<close>

theorem combined_text_style_reference_dangles:
  "\<exists>docT docC.
     generateTextOnlySvg env0 design0 False = Inr docT
     \<and> generateCombinedSvg env0 design0 = Inr docC
     \<and> ids docT = [''shadow-text-element'', ''text-path-lower'']
     \<and> url_refs docT = [''shadow-text-element''] \<and> href_refs docT = [''text-path-lower'']
     \<and> ids docC = [''shadow-design-element'', ''text-path-lower'']
     \<and> url_refs docC = [''shadow-text-element''] \<and> href_refs docC = [''text-path-lower'']
     \<and> \<not> set (url_refs docC) \<subseteq> set (ids docC)
     \<and> set (ids docT) \<inter> set (ids docC) = {''text-path-lower''}"
proof -
  have h1: "logoOf design0 = Some ''L''" by (simp add: logoOf_def design0_def)
  have h2: "imageSize env0 ''L'' = Some \<lparr>width = 100, height = 200\<rparr>" by (simp add: env0_def)
  have h3: "\<not> blank (text' design0)" by (simp add: blank_def design0_def is_space_def)
  have h4: "CHR 0x22 \<notin> set (textColor design0)" by (simp add: design0_def)
  have h5: "CHR 0x22 \<notin> set (gradientStartColor design0)" by (simp add: design0_def)
  have h6: "CHR 0x22 \<notin> set (gradientEndColor design0)" by (simp add: design0_def)
  have h7: "\<not> startsWith ''url(#'' (textColor design0)" by (simp add: design0_def)
  have h8: "fonts_free CHR 0x22 env0" by (simp add: fonts_free_def env0_def)
  have h9: "fonts_free CHR ''<'' env0" by (simp add: fonts_free_def env0_def)
  have h10: "num_free CHR 0x22 env0" by (simp add: num_free_def env0_def)
  have h11: "CHR 0x22 \<notin> set ''L''" by simp
  have h12: "\<not> startsWith ''#'' ''L''" by simp
  have s: "textStyle design0 = Shadow" "style design0 = Classic" "text' design0 = ''A B C''"
    by (simp_all add: design0_def)
  from textOnly_refsum [OF h1 h2 h3 h4 h5 h6 h7 h8 h9 h10]
  obtain docT where t: "generateTextOnlySvg env0 design0 False = Inr docT"
    and rt0: "refsum (scan Content docT)
         = (styleIds (textStyle design0) ''text-element'' @ pathIds (style design0),
            pathIds (style design0),
            concat (replicate (textCount (style design0) (text' design0))
                      (styleIds (textStyle design0) ''text-element'')))"
    by blast
  from combined_refsum [OF h1 h2 h4 h5 h6 h7 h8 h9 h10 h11 h12]
  obtain docC where c: "generateCombinedSvg env0 design0 = Inr docC"
    and rc0: "refsum (scan Content docC)
         = (if blank (text' design0)
            then (styleIds (textStyle design0) ''design-element'', [], [])
            else (styleIds (textStyle design0) ''design-element'' @ pathIds (style design0),
                  pathIds (style design0),
                  concat (replicate (textCount (style design0) (text' design0))
                            (styleIds (textStyle design0) ''text-element''))))"
    by blast
  have rt: "refsum (scan Content docT)
         = ([''shadow-text-element'', ''text-path-lower''], [''text-path-lower''],
            [''shadow-text-element''])"
    unfolding rt0 s by (simp add: textCount_def)
  have rc: "refsum (scan Content docC)
         = ([''shadow-design-element'', ''text-path-lower''], [''text-path-lower''],
            [''shadow-text-element''])"
    unfolding rc0 using h3 unfolding s by (simp add: textCount_def)
  note pt = refsum_parts [OF rt]
  note pc = refsum_parts [OF rc]
  have d: "\<not> set (url_refs docC) \<subseteq> set (ids docC)"
    by (simp add: pc)
  have i: "set (ids docT) \<inter> set (ids docC) = {''text-path-lower''}"
    by (simp add: pt pc)
  from t c pt pc d i show ?thesis by blast
qed

end
